theory Spec2Isabelle
  imports Main
begin

section \<open>Errors\<close>

text \<open>
  Go errors are values. \<open>ErrorString\<close> is an error made by \<open>fmt.Errorf\<close> without
  \<open>%w\<close>; \<open>WrapError ctx e\<close> is \<open>fmt.Errorf(ctx + ": %w", e)\<close>. The remaining
  constructors are the errors of the operating system and of \<open>html/template\<close> that
  the package can meet.
\<close>

datatype errno = ENOENT | ENOTDIR | EISDIR | EACCES

datatype error =
    ErrorString string
  | WrapError string error
  | PathError string string errno
  | ErrBadPattern
  | PatternMatchesNoFiles string
  | NoFilesNamed
  | CannotParseAfterExecute
  | CannotCloneAfterExecute
  | UndefinedTemplate string
  | EngineError string
  | NilPointer

section \<open>The file system\<close>

text \<open>
  The file system is what the package sees of it: the node a path names (a regular file
  with its contents, or a directory with its listing, either of which may be unreadable),
  and the result of \<open>filepath.Glob\<close> for a pattern. Symbolic links are not modelled.
  \<open>os.ReadDir\<close> fails on a path that names nothing and on one that names a regular
  file; \<open>os.ReadFile\<close> fails on a path that names nothing and on one that names a
  directory.
\<close>

record DirEntry =
  Name :: string
  IsDir :: bool

datatype node =
    RegularFile "error + string"
  | Directory "error + DirEntry list"

record filesystem =
  node_at :: "string \<Rightarrow> node option"
  Glob :: "string \<Rightarrow> error + string list"

definition os_ReadDir :: "filesystem \<Rightarrow> string \<Rightarrow> error + DirEntry list" where
  "os_ReadDir fs name =
     (case node_at fs name of
        None \<Rightarrow> Inl (PathError ''open'' name ENOENT)
      | Some (RegularFile _) \<Rightarrow> Inl (PathError ''readdirent'' name ENOTDIR)
      | Some (Directory r) \<Rightarrow> r)"

definition os_ReadFile :: "filesystem \<Rightarrow> string \<Rightarrow> error + string" where
  "os_ReadFile fs name =
     (case node_at fs name of
        None \<Rightarrow> Inl (PathError ''open'' name ENOENT)
      | Some (Directory _) \<Rightarrow> Inl (PathError ''read'' name EISDIR)
      | Some (RegularFile r) \<Rightarrow> r)"

section \<open>Paths\<close>

fun split_slash :: "string \<Rightarrow> string list" where
  "split_slash [] = [[]]"
| "split_slash (c # cs) =
     (if c = CHR ''/'' then [] # split_slash cs
      else (case split_slash cs of [] \<Rightarrow> [[c]] | x # xs \<Rightarrow> (c # x) # xs))"

fun join_slash :: "string list \<Rightarrow> string" where
  "join_slash [] = []"
| "join_slash [e] = e"
| "join_slash (e # es) = e @ ''/'' @ join_slash es"

text \<open>
  \<open>path.Clean\<close>: empty and \<open>.\<close> elements are dropped, an inner \<open>..\<close> removes the
  element before it, a \<open>..\<close> at the start of a rooted path is dropped and at the start
  of a relative path is kept. \<open>acc\<close> is the output so far, last element first.
\<close>

fun clean_elems :: "bool \<Rightarrow> string list \<Rightarrow> string list \<Rightarrow> string list" where
  "clean_elems rooted acc [] = rev acc"
| "clean_elems rooted acc (e # es) =
     (if e = [] \<or> e = ''.'' then clean_elems rooted acc es
      else if e = ''..'' then
        (case acc of
           [] \<Rightarrow> if rooted then clean_elems rooted [] es
                 else clean_elems rooted [''..''] es
         | a # as \<Rightarrow> if a = ''..'' then clean_elems rooted (''..'' # acc) es
                    else clean_elems rooted as es)
      else clean_elems rooted (e # acc) es)"

definition path_Clean :: "string \<Rightarrow> string" where
  "path_Clean p =
     (if p = [] then ''.''
      else
        let rooted = (hd p = CHR ''/'');
            s = (if rooted then ''/'' else []) @ join_slash (clean_elems rooted [] (split_slash p))
        in if s = [] then ''.'' else s)"

definition path_Join :: "string list \<Rightarrow> string" where
  "path_Join elem =
     (let es = filter (\<lambda>e. e \<noteq> []) elem
      in if es = [] then [] else path_Clean (join_slash es))"

definition filepath_Base :: "string \<Rightarrow> string" where
  "filepath_Base p =
     (if p = [] then ''.''
      else
        let q = rev (dropWhile (\<lambda>c. c = CHR ''/'') (rev p));
            b = rev (takeWhile (\<lambda>c. c \<noteq> CHR ''/'') (rev q))
        in if b = [] then ''/'' else b)"

section \<open>The template library\<close>

text \<open>
  A \<open>*template.Template\<close> is a reference to a name space: the templates associated
  with each other, by name, and the mark that one of them has been executed. The heap
  holds the name spaces; a reference is an index into it. What a template text defines
  and what executing a template writes belong to the template language, which is a
  parameter: \<open>parse_text\<close> gives the name space after parsing a text under a name,
  \<open>execute\<close> the bytes written and the error, if any.
\<close>

record 'b nameSpace =
  tmpls :: "string \<rightharpoonup> 'b"
  escaped :: bool

type_synonym 'b heap = "'b nameSpace list"

type_synonym Template = nat

record ('b, 'd) engine =
  parse_text :: "(string \<rightharpoonup> 'b) \<Rightarrow> string \<Rightarrow> string \<Rightarrow> error + (string \<rightharpoonup> 'b)"
  execute :: "(string \<rightharpoonup> 'b) \<Rightarrow> 'b \<Rightarrow> 'd \<Rightarrow> string \<times> error option"

text \<open>
  \<open>Clone\<close> copies the name space, so that parsing into the copy adds nothing to the
  original, and refuses a name space that has been executed, as parsing does
  (\<open>checkCanParse\<close>). \<open>Parse\<close> changes the name space of its receiver in place.
\<close>

definition Template_New :: "'b heap \<Rightarrow> Template \<times> 'b heap" where
  "Template_New h = (length h, h @ [\<lparr>tmpls = Map.empty, escaped = False\<rparr>])"

definition Template_Clone :: "'b heap \<Rightarrow> Template \<Rightarrow> error + (Template \<times> 'b heap)" where
  "Template_Clone h t =
     (if \<not> t < length h then Inl NilPointer
      else if escaped (h ! t) then Inl CannotCloneAfterExecute
      else Inr (length h, h @ [\<lparr>tmpls = tmpls (h ! t), escaped = False\<rparr>]))"

definition checkCanParse :: "'b heap \<Rightarrow> Template option \<Rightarrow> error option" where
  "checkCanParse h t =
     (case t of
        None \<Rightarrow> None
      | Some a \<Rightarrow> if \<not> a < length h then Some NilPointer
                  else if escaped (h ! a) then Some CannotParseAfterExecute
                  else None)"

definition Template_Parse ::
  "('b, 'd) engine \<Rightarrow> 'b heap \<Rightarrow> Template \<Rightarrow> string \<Rightarrow> string \<Rightarrow> error + (Template \<times> 'b heap)" where
  "Template_Parse eng h t name text =
     (case checkCanParse h (Some t) of
        Some err \<Rightarrow> Inl err
      | None \<Rightarrow>
          (case parse_text eng (tmpls (h ! t)) name text of
             Inl err \<Rightarrow> Inl err
           | Inr s \<Rightarrow> Inr (t, h[t := (h ! t)\<lparr>tmpls := s\<rparr>])))"

text \<open>
  \<open>ParseFiles\<close> parses each named file, in order, under the base name of its path,
  into the receiver's name space, or into a new one when there is no receiver.
  \<open>ParseGlob\<close> does so for the files that match a pattern, which must match at least
  one file.
\<close>

definition readFileOS :: "filesystem \<Rightarrow> string \<Rightarrow> error + (string \<times> string)" where
  "readFileOS fs file =
     (case os_ReadFile fs file of
        Inl err \<Rightarrow> Inl err
      | Inr b \<Rightarrow> Inr (filepath_Base file, b))"

fun parseFiles_from ::
  "filesystem \<Rightarrow> ('b, 'd) engine \<Rightarrow> 'b heap \<Rightarrow> Template \<Rightarrow> string list \<Rightarrow> error + (Template \<times> 'b heap)" where
  "parseFiles_from fs eng h t [] = Inr (t, h)"
| "parseFiles_from fs eng h t (filename # filenames) =
     (case readFileOS fs filename of
        Inl err \<Rightarrow> Inl err
      | Inr (name, s) \<Rightarrow>
          (case Template_Parse eng h t name s of
             Inl err \<Rightarrow> Inl err
           | Inr (_, h') \<Rightarrow> parseFiles_from fs eng h' t filenames))"

definition parseFiles ::
  "filesystem \<Rightarrow> ('b, 'd) engine \<Rightarrow> 'b heap \<Rightarrow> Template option \<Rightarrow> string list \<Rightarrow> error + (Template \<times> 'b heap)" where
  "parseFiles fs eng h t filenames =
     (case checkCanParse h t of
        Some err \<Rightarrow> Inl err
      | None \<Rightarrow>
          if filenames = [] then Inl NoFilesNamed
          else
            (case t of
               Some a \<Rightarrow> parseFiles_from fs eng h a filenames
             | None \<Rightarrow>
                 (let (a, h') = Template_New h
                  in parseFiles_from fs eng h' a filenames)))"

definition parseGlob ::
  "filesystem \<Rightarrow> ('b, 'd) engine \<Rightarrow> 'b heap \<Rightarrow> Template option \<Rightarrow> string \<Rightarrow> error + (Template \<times> 'b heap)" where
  "parseGlob fs eng h t pattern =
     (case checkCanParse h t of
        Some err \<Rightarrow> Inl err
      | None \<Rightarrow>
          (case Glob fs pattern of
             Inl err \<Rightarrow> Inl err
           | Inr filenames \<Rightarrow>
               if filenames = [] then Inl (PatternMatchesNoFiles pattern)
               else parseFiles fs eng h t filenames))"

text \<open>
  \<open>ExecuteTemplate\<close> marks the name space as executed, looks the name up in it,
  returns an error when no template has that name, and otherwise executes the template
  with the data, writing to the destination; an error may come after a part of the
  output has been written. The destination is the sequence of bytes written so far.
  The templates of a name space stand for what they define: the library's rewriting of
  their parse trees for escaping, which it does when it first executes them and on
  which the output does not depend, is carried by the mark alone.
\<close>

definition ExecuteTemplate ::
  "('b, 'd) engine \<Rightarrow> 'b heap \<Rightarrow> Template \<Rightarrow> string \<Rightarrow> string \<Rightarrow> 'd \<Rightarrow> error option \<times> string \<times> 'b heap" where
  "ExecuteTemplate eng h t w name data =
     (if \<not> t < length h then (Some NilPointer, w, h)
      else
        let h' = h[t := (h ! t)\<lparr>escaped := True\<rparr>]
        in (case tmpls (h ! t) name of
              None \<Rightarrow> (Some (UndefinedTemplate name), w, h')
            | Some b \<Rightarrow>
                (let (out, err) = execute eng (tmpls (h ! t)) b data
                 in (err, w @ out, h'))))"

section \<open>The package\<close>

record Gotemp =
  basePath :: string
  pages :: "string \<rightharpoonup> Template"

definition RenderPage ::
  "('b, 'd) engine \<Rightarrow> Gotemp \<Rightarrow> 'b heap \<Rightarrow> string \<Rightarrow> string \<Rightarrow> string \<Rightarrow> 'd
     \<Rightarrow> error option \<times> string \<times> Gotemp \<times> 'b heap" where
  "RenderPage eng tc h w layout page data =
     (case pages tc page of
        None \<Rightarrow> (Some (ErrorString (''page template not found: '' @ page)), w, tc, h)
      | Some pageTemplate \<Rightarrow>
          (let (err, w', h') = ExecuteTemplate eng h pageTemplate w layout data
           in (err, w', tc, h')))"

definition clone :: "'b heap \<Rightarrow> Template \<Rightarrow> error + (Template \<times> 'b heap)" where
  "clone h temp =
     (case Template_Clone h temp of
        Inl err \<Rightarrow> Inl (WrapError ''failed to clone template'' err)
      | Inr r \<Rightarrow> Inr r)"

definition loadRoot ::
  "filesystem \<Rightarrow> ('b, 'd) engine \<Rightarrow> 'b heap \<Rightarrow> Gotemp \<Rightarrow> error + (Template \<times> 'b heap)" where
  "loadRoot fs eng h tc =
     (case parseGlob fs eng h None (path_Join [basePath tc, ''root.html'']) of
        Inl err \<Rightarrow> Inl err
      | Inr r \<Rightarrow> Inr r)"

definition loadPartials ::
  "filesystem \<Rightarrow> ('b, 'd) engine \<Rightarrow> 'b heap \<Rightarrow> Gotemp \<Rightarrow> Template \<Rightarrow> error + (Template \<times> 'b heap)" where
  "loadPartials fs eng h tc root =
     (case clone h root of
        Inl err \<Rightarrow> Inl (WrapError ''failed to clone root template'' err)
      | Inr (clonedRoot, h') \<Rightarrow>
          (case parseGlob fs eng h' (Some clonedRoot) (path_Join [basePath tc, ''partials'', ''*.html'']) of
             Inl err \<Rightarrow> Inl err
           | Inr r \<Rightarrow> Inr r))"

definition loadLayouts ::
  "filesystem \<Rightarrow> ('b, 'd) engine \<Rightarrow> 'b heap \<Rightarrow> Gotemp \<Rightarrow> Template \<Rightarrow> error + (Template \<times> 'b heap)" where
  "loadLayouts fs eng h tc partials =
     (case clone h partials of
        Inl err \<Rightarrow> Inl (WrapError ''failed to clone partials template'' err)
      | Inr (clonedPartials, h') \<Rightarrow>
          (case parseGlob fs eng h' (Some clonedPartials) (path_Join [basePath tc, ''layouts'', ''*.html'']) of
             Inl err \<Rightarrow> Inl err
           | Inr r \<Rightarrow> Inr r))"

text \<open>The inner loop of \<open>loadPages\<close>, over the entries of one subdirectory.\<close>

fun loadPages_files ::
  "filesystem \<Rightarrow> ('b, 'd) engine \<Rightarrow> Template \<Rightarrow> string \<Rightarrow> string \<Rightarrow> DirEntry list
     \<Rightarrow> (string \<rightharpoonup> Template) \<times> 'b heap \<Rightarrow> error + ((string \<rightharpoonup> Template) \<times> 'b heap)" where
  "loadPages_files fs eng layouts pagesPath dirName [] (pgs, h) = Inr (pgs, h)"
| "loadPages_files fs eng layouts pagesPath dirName (file # files) (pgs, h) =
     (if \<not> IsDir file then
        (let fileName = Name file;
             name = path_Join [pagesPath, dirName, fileName]
         in (case clone h layouts of
               Inl err \<Rightarrow> Inl (WrapError ''failed to clone layout template'' err)
             | Inr (layout, h') \<Rightarrow>
                 (let pageKey = path_Join [dirName, fileName]
                  in (case parseFiles fs eng h' (Some layout) [name] of
                        Inl err \<Rightarrow> Inl (WrapError (''failed to parse page template '' @ name) err)
                      | Inr (t, h'') \<Rightarrow>
                          loadPages_files fs eng layouts pagesPath dirName files (pgs(pageKey \<mapsto> t), h'')))))
      else loadPages_files fs eng layouts pagesPath dirName files (pgs, h))"

text \<open>The outer loop of \<open>loadPages\<close>, over the entries of the pages directory.\<close>

fun loadPages_entries ::
  "filesystem \<Rightarrow> ('b, 'd) engine \<Rightarrow> Template \<Rightarrow> string \<Rightarrow> DirEntry list
     \<Rightarrow> (string \<rightharpoonup> Template) \<times> 'b heap \<Rightarrow> error + ((string \<rightharpoonup> Template) \<times> 'b heap)" where
  "loadPages_entries fs eng layouts pagesPath [] (pgs, h) = Inr (pgs, h)"
| "loadPages_entries fs eng layouts pagesPath (entry # entries) (pgs, h) =
     (let dirName = Name entry;
          dirPath = path_Join [pagesPath, dirName]
      in (case os_ReadDir fs dirPath of
            Inl err \<Rightarrow> Inl (WrapError (''could not read the subpages directory '' @ dirPath) err)
          | Inr files \<Rightarrow>
              (case loadPages_files fs eng layouts pagesPath dirName files (pgs, h) of
                 Inl err \<Rightarrow> Inl err
               | Inr st \<Rightarrow> loadPages_entries fs eng layouts pagesPath entries st)))"

definition loadPages ::
  "filesystem \<Rightarrow> ('b, 'd) engine \<Rightarrow> 'b heap \<Rightarrow> Gotemp \<Rightarrow> error + (Gotemp \<times> 'b heap)" where
  "loadPages fs eng h tc =
     (case loadRoot fs eng h tc of
        Inl err \<Rightarrow> Inl (WrapError ''failed to load root template'' err)
      | Inr (root, h1) \<Rightarrow>
     (case loadPartials fs eng h1 tc root of
        Inl err \<Rightarrow> Inl (WrapError ''failed to load partials'' err)
      | Inr (partials, h2) \<Rightarrow>
     (case loadLayouts fs eng h2 tc partials of
        Inl err \<Rightarrow> Inl (WrapError ''failed to load layouts'' err)
      | Inr (layouts, h3) \<Rightarrow>
     (let pagesPath = path_Join [basePath tc, ''pages'']
      in (case os_ReadDir fs pagesPath of
            Inl err \<Rightarrow> Inl (WrapError ''could not read the pages directory'' err)
          | Inr entries \<Rightarrow>
              (case loadPages_entries fs eng layouts pagesPath entries (Map.empty, h3) of
                 Inl err \<Rightarrow> Inl err
               | Inr (pgs, h4) \<Rightarrow> Inr (tc\<lparr>pages := pgs\<rparr>, h4)))))))"

definition New ::
  "filesystem \<Rightarrow> ('b, 'd) engine \<Rightarrow> 'b heap \<Rightarrow> string \<Rightarrow> error + (Gotemp \<times> 'b heap)" where
  "New fs eng h basePath' =
     (let gotemp = \<lparr>basePath = basePath', pages = Map.empty\<rparr>
      in (case loadPages fs eng h gotemp of
            Inl err \<Rightarrow> Inl err
          | Inr r \<Rightarrow> Inr r))"

text \<open>
  The states an engine instance can be in: the one \<open>New\<close> returns, and the ones
  reached from it by calls of \<open>RenderPage\<close>.
\<close>

inductive engine_state :: "filesystem \<Rightarrow> ('b, 'd) engine \<Rightarrow> Gotemp \<Rightarrow> 'b heap \<Rightarrow> bool"
  for fs :: filesystem and eng :: "('b, 'd) engine" where
  built: "New fs eng h0 base = Inr (tc, h) \<Longrightarrow> engine_state fs eng tc h"
| rendered: "engine_state fs eng tc h \<Longrightarrow>
     RenderPage eng tc h w layout page data = (err, w', tc', h') \<Longrightarrow>
     engine_state fs eng tc' h'"

section \<open>What construction computes\<close>

text \<open>
  The template set that parsing a list of files, one after the other, into a set gives,
  and the one that parsing the files matched by a pattern gives: \<open>None\<close> when the
  pattern is malformed or matches no file, or when a file cannot be read or parsed.
\<close>

fun files_parse ::
  "filesystem \<Rightarrow> ('b, 'd) engine \<Rightarrow> (string \<rightharpoonup> 'b) \<Rightarrow> string list \<Rightarrow> (string \<rightharpoonup> 'b) option" where
  "files_parse fs eng s [] = Some s"
| "files_parse fs eng s (filename # filenames) =
     (case os_ReadFile fs filename of
        Inl _ \<Rightarrow> None
      | Inr content \<Rightarrow>
          (case parse_text eng s (filepath_Base filename) content of
             Inl _ \<Rightarrow> None
           | Inr s' \<Rightarrow> files_parse fs eng s' filenames))"

definition glob_parse ::
  "filesystem \<Rightarrow> ('b, 'd) engine \<Rightarrow> (string \<rightharpoonup> 'b) \<Rightarrow> string \<Rightarrow> (string \<rightharpoonup> 'b) option" where
  "glob_parse fs eng s pattern =
     (case Glob fs pattern of
        Inl _ \<Rightarrow> None
      | Inr filenames \<Rightarrow> if filenames = [] then None else files_parse fs eng s filenames)"

text \<open>
  A page file is in order when it can be read and parses on top of the layout set
  \<open>L\<close>; a category when it can be listed and each of its entries is a directory or a
  page file in order; the pages directory when it can be listed and each of its entries
  is a category in order.
\<close>

definition page_file_ok :: "filesystem \<Rightarrow> ('b, 'd) engine \<Rightarrow> (string \<rightharpoonup> 'b) \<Rightarrow> string \<Rightarrow> bool" where
  "page_file_ok fs eng L name =
     (case os_ReadFile fs name of
        Inl _ \<Rightarrow> False
      | Inr content \<Rightarrow>
          (case parse_text eng L (filepath_Base name) content of Inl _ \<Rightarrow> False | Inr _ \<Rightarrow> True))"

definition category_ok ::
  "filesystem \<Rightarrow> ('b, 'd) engine \<Rightarrow> (string \<rightharpoonup> 'b) \<Rightarrow> string \<Rightarrow> DirEntry \<Rightarrow> bool" where
  "category_ok fs eng L pagesPath entry =
     (case os_ReadDir fs (path_Join [pagesPath, Name entry]) of
        Inl _ \<Rightarrow> False
      | Inr files \<Rightarrow>
          list_all (\<lambda>file. IsDir file \<or> page_file_ok fs eng L (path_Join [pagesPath, Name entry, Name file])) files)"

definition pages_ok :: "filesystem \<Rightarrow> ('b, 'd) engine \<Rightarrow> (string \<rightharpoonup> 'b) \<Rightarrow> string \<Rightarrow> bool" where
  "pages_ok fs eng L pagesPath =
     (case os_ReadDir fs pagesPath of
        Inl _ \<Rightarrow> False
      | Inr entries \<Rightarrow> list_all (category_ok fs eng L pagesPath) entries)"

text \<open>
  The non-directory files found under the categories of the pages directory, each with
  its category, and the names a file system gives its entries.
\<close>

definition category_files :: "filesystem \<Rightarrow> string \<Rightarrow> DirEntry \<Rightarrow> (string \<times> string) list" where
  "category_files fs pagesPath entry =
     (case os_ReadDir fs (path_Join [pagesPath, Name entry]) of
        Inl _ \<Rightarrow> []
      | Inr files \<Rightarrow> map (\<lambda>file. (Name entry, Name file)) (filter (\<lambda>file. \<not> IsDir file) files))"

definition leaf_files :: "filesystem \<Rightarrow> string \<Rightarrow> (string \<times> string) list" where
  "leaf_files fs pagesPath =
     (case os_ReadDir fs pagesPath of
        Inl _ \<Rightarrow> []
      | Inr entries \<Rightarrow> concat (map (category_files fs pagesPath) entries))"

definition valid_name :: "string \<Rightarrow> bool" where
  "valid_name n = (n \<noteq> [] \<and> CHR ''/'' \<notin> set n \<and> n \<noteq> ''.'' \<and> n \<noteq> ''..'')"

definition page_key :: "string \<times> string \<Rightarrow> string" where
  "page_key df = fst df @ ''/'' @ snd df"

text \<open>
  A page's template set \<open>s\<close> is compiled from the layout set \<open>L\<close> when it is what
  parsing one file of the pages directory on top of \<open>L\<close> gives, and the page's key is
  made of that file's category and name.
\<close>

definition page_compiled ::
  "filesystem \<Rightarrow> ('b, 'd) engine \<Rightarrow> (string \<rightharpoonup> 'b) \<Rightarrow> string \<Rightarrow> string \<Rightarrow> (string \<rightharpoonup> 'b) \<Rightarrow> bool" where
  "page_compiled fs eng L pagesPath k s =
     (\<exists>d f content. k = path_Join [d, f] \<and>
        os_ReadFile fs (path_Join [pagesPath, d, f]) = Inr content \<and>
        parse_text eng L (filepath_Base (path_Join [pagesPath, d, f])) content = Inr s)"

text \<open>
  The invariant of the two loops of \<open>loadPages\<close>, for the heap \<open>h3\<close> in which the
  layout set was completed: the heap has only grown, every page's set is a name space
  of its own made after \<open>h3\<close>, compiled from the layout set, and no two keys share one.
\<close>

definition pages_inv ::
  "filesystem \<Rightarrow> ('b, 'd) engine \<Rightarrow> 'b heap \<Rightarrow> Template \<Rightarrow> string
     \<Rightarrow> (string \<rightharpoonup> Template) \<times> 'b heap \<Rightarrow> bool" where
  "pages_inv fs eng h3 layouts pagesPath st =
     (case st of (pgs, h) \<Rightarrow>
        length h3 \<le> length h \<and> take (length h3) h = h3 \<and>
        (\<forall>k t. pgs k = Some t \<longrightarrow>
           length h3 \<le> t \<and> t < length h \<and> \<not> escaped (h ! t) \<and>
           page_compiled fs eng (tmpls (h3 ! layouts)) pagesPath k (tmpls (h ! t))) \<and>
        (\<forall>k k' t. pgs k = Some t \<longrightarrow> pgs k' = Some t \<longrightarrow> k = k'))"

section \<open>An example template directory\<close>

text \<open>
  The directory of the package's tests: a root template, one partial, one layout and
  one page. The engine used with it keeps a file's text as the template of the file's
  name, rejects an empty text, and writes the template's text followed by the data.
\<close>

definition example_engine :: "(string, string) engine" where
  "example_engine =
     \<lparr>parse_text = (\<lambda>s name text. if text = [] then Inl (EngineError name) else Inr (s(name \<mapsto> text))),
      execute = (\<lambda>s b d. (b @ d, None))\<rparr>"

definition example_nodes :: "(string \<times> node) list" where
  "example_nodes =
     [(''examples/root.html'', RegularFile (Inr ''<!DOCTYPE html>'')),
      (''examples/partials/_header.html'', RegularFile (Inr ''Your APP!!'')),
      (''examples/layouts/app.html'', RegularFile (Inr ''app_layout'')),
      (''examples/pages'', Directory (Inr [\<lparr>Name = ''home'', IsDir = True\<rparr>])),
      (''examples/pages/home'',
         Directory (Inr [\<lparr>Name = ''index.html'', IsDir = False\<rparr>, \<lparr>Name = ''drafts'', IsDir = True\<rparr>])),
      (''examples/pages/home/index.html'', RegularFile (Inr ''Homepage'')),
      (''examples/pages/home/drafts'', Directory (Inr []))]"

definition example_globs :: "(string \<times> string list) list" where
  "example_globs =
     [(''examples/root.html'', [''examples/root.html'']),
      (''examples/partials/*.html'', [''examples/partials/_header.html'']),
      (''examples/layouts/*.html'', [''examples/layouts/app.html''])]"

definition glob_of :: "(string \<times> string list) list \<Rightarrow> string \<Rightarrow> error + string list" where
  "glob_of tab pattern = (case map_of tab pattern of None \<Rightarrow> Inr [] | Some fs \<Rightarrow> Inr fs)"

definition example_fs :: filesystem where
  "example_fs = \<lparr>node_at = map_of example_nodes, Glob = glob_of example_globs\<rparr>"

definition example_tc :: Gotemp where
  "example_tc = \<lparr>basePath = ''examples'', pages = [''home/index.html'' \<mapsto> 3]\<rparr>"

definition example_heap :: "string heap" where
  "example_heap =
     [\<lparr>tmpls = [''root.html'' \<mapsto> ''<!DOCTYPE html>''], escaped = False\<rparr>,
      \<lparr>tmpls = [''root.html'' \<mapsto> ''<!DOCTYPE html>'', ''_header.html'' \<mapsto> ''Your APP!!''], escaped = False\<rparr>,
      \<lparr>tmpls = [''root.html'' \<mapsto> ''<!DOCTYPE html>'', ''_header.html'' \<mapsto> ''Your APP!!'',
                ''app.html'' \<mapsto> ''app_layout''], escaped = False\<rparr>,
      \<lparr>tmpls = [''root.html'' \<mapsto> ''<!DOCTYPE html>'', ''_header.html'' \<mapsto> ''Your APP!!'',
                ''app.html'' \<mapsto> ''app_layout'', ''index.html'' \<mapsto> ''Homepage''], escaped = False\<rparr>]"

definition example_heap_rendered :: "string heap" where
  "example_heap_rendered = example_heap[3 := (example_heap ! 3)\<lparr>escaped := True\<rparr>]"

text \<open>The same directory without its partials, without its layouts, and with a
  regular file directly in the pages directory.\<close>

definition no_partials_fs :: filesystem where
  "no_partials_fs =
     \<lparr>node_at = map_of (filter (\<lambda>(p, n). p \<noteq> ''examples/partials/_header.html'') example_nodes),
      Glob = glob_of (filter (\<lambda>(p, fs). p \<noteq> ''examples/partials/*.html'') example_globs)\<rparr>"

definition no_layouts_fs :: filesystem where
  "no_layouts_fs =
     \<lparr>node_at = map_of (filter (\<lambda>(p, n). p \<noteq> ''examples/layouts/app.html'') example_nodes),
      Glob = glob_of (filter (\<lambda>(p, fs). p \<noteq> ''examples/layouts/*.html'') example_globs)\<rparr>"

definition stray_file_fs :: filesystem where
  "stray_file_fs =
     \<lparr>node_at = map_of
         ((''examples/pages'',
             Directory (Inr [\<lparr>Name = ''home'', IsDir = True\<rparr>, \<lparr>Name = ''notes.txt'', IsDir = False\<rparr>])) #
          (''examples/pages/notes.txt'', RegularFile (Inr ''notes'')) #
          example_nodes),
      Glob = glob_of example_globs\<rparr>"

section \<open>Paths of entry names\<close>

lemma split_slash_no_slash: "CHR ''/'' \<notin> set n \<Longrightarrow> split_slash n = [n]"
  by (induction n) auto

lemma split_slash_append:
  "CHR ''/'' \<notin> set d \<Longrightarrow> split_slash (d @ CHR ''/'' # r) = d # split_slash r"
  by (induction d) auto

lemma path_Join_names:
  assumes "valid_name d" and "valid_name f"
  shows "path_Join [d, f] = d @ ''/'' @ f"
proof -
  from assms have d: "d \<noteq> []" "CHR ''/'' \<notin> set d" "d \<noteq> ''.''" "d \<noteq> ''..''"
    and f: "f \<noteq> []" "CHR ''/'' \<notin> set f" "f \<noteq> ''.''" "f \<noteq> ''..''"
    by (auto simp: valid_name_def)
  from d have hd: "hd (d @ CHR ''/'' # f) \<noteq> CHR ''/''"
    by (cases d) auto
  have sp: "split_slash (d @ CHR ''/'' # f) = [d, f]"
    using d f by (simp add: split_slash_append split_slash_no_slash)
  have cl: "clean_elems False [] [d, f] = [d, f]"
    using d f by simp
  show ?thesis
    using d f hd by (simp add: path_Join_def path_Clean_def sp cl Let_def)
qed

lemma page_key_inj:
  assumes "CHR ''/'' \<notin> set d" and "CHR ''/'' \<notin> set d'"
    and "d @ ''/'' @ f = d' @ ''/'' @ f'"
  shows "d = d' \<and> f = f'"
proof -
  from assms(3) have "split_slash (d @ CHR ''/'' # f) = split_slash (d' @ CHR ''/'' # f')" by simp
  with assms(1,2) have "d = d'" by (simp add: split_slash_append)
  with assms(3) show ?thesis by simp
qed

section \<open>Name spaces under construction\<close>

lemma clone_Inr:
  "clone h t = Inr (c, h') \<Longrightarrow>
   t < length h \<and> \<not> escaped (h ! t) \<and> c = length h \<and>
   h' = h @ [\<lparr>tmpls = tmpls (h ! t), escaped = False\<rparr>]"
  by (auto simp: clone_def Template_Clone_def split: if_splits)

lemma clone_ok:
  "t < length h \<Longrightarrow> \<not> escaped (h ! t) \<Longrightarrow>
   clone h t = Inr (length h, h @ [\<lparr>tmpls = tmpls (h ! t), escaped = False\<rparr>])"
  by (simp add: clone_def Template_Clone_def)

lemma Template_Parse_last:
  "Template_Parse eng (h @ [ns]) (length h) name text =
     (if escaped ns then Inl CannotParseAfterExecute
      else case parse_text eng (tmpls ns) name text of
             Inl err \<Rightarrow> Inl err
           | Inr s \<Rightarrow> Inr (length h, h @ [ns\<lparr>tmpls := s\<rparr>]))"
  by (simp add: Template_Parse_def checkCanParse_def split: sum.splits)

lemma parseFiles_from_last:
  "parseFiles_from fs eng (h @ [ns]) (length h) fns = Inr (t, h') \<Longrightarrow>
   t = length h \<and> (\<exists>ns'. h' = h @ [ns'] \<and> escaped ns' = escaped ns)"
proof (induction fns arbitrary: ns)
  case Nil
  then show ?case by auto
next
  case (Cons fn fns)
  then show ?case
    by (fastforce simp: Template_Parse_last split: sum.splits prod.splits if_splits)
qed

lemma parseGlob_last:
  "parseGlob fs eng (h @ [ns]) (Some (length h)) pat = Inr (t, h') \<Longrightarrow>
   t = length h \<and> (\<exists>ns'. h' = h @ [ns'] \<and> escaped ns' = escaped ns)"
  by (auto simp: parseGlob_def parseFiles_def split: option.splits sum.splits if_splits
      dest: parseFiles_from_last)

lemma loadPartials_Inr:
  "loadPartials fs eng h tc root = Inr (partials, h2) \<Longrightarrow>
   root < length h \<and> \<not> escaped (h ! root) \<and> partials = length h \<and>
   (\<exists>ns. h2 = h @ [ns] \<and> \<not> escaped ns)"
  by (auto simp: loadPartials_def split: sum.splits dest!: clone_Inr parseGlob_last)

lemma parseFiles_page:
  "parseFiles fs eng (h @ [ns]) (Some (length h)) [name] =
     (if escaped ns then Inl CannotParseAfterExecute
      else case os_ReadFile fs name of
             Inl err \<Rightarrow> Inl err
           | Inr content \<Rightarrow>
               (case parse_text eng (tmpls ns) (filepath_Base name) content of
                  Inl err \<Rightarrow> Inl err
                | Inr s \<Rightarrow> Inr (length h, h @ [ns\<lparr>tmpls := s\<rparr>])))"
  by (simp add: parseFiles_def checkCanParse_def readFileOS_def Template_Parse_last
      split: sum.splits)

lemma loadPages_files_inv:
  assumes "layouts < length h3" and "\<not> escaped (h3 ! layouts)"
  shows "pages_inv fs eng h3 layouts pagesPath st \<Longrightarrow>
         loadPages_files fs eng layouts pagesPath dirName files st = Inr st' \<Longrightarrow>
         pages_inv fs eng h3 layouts pagesPath st'"
proof (induction files arbitrary: st)
  case Nil
  then show ?case by (cases st) simp
next
  case (Cons x xs)
  obtain pgs h where st: "st = (pgs, h)" by (cases st)
  show ?case
  proof (cases "IsDir x")
    case True
    with Cons st show ?thesis by simp
  next
    case False
    let ?name = "path_Join [pagesPath, dirName, Name x]"
    let ?key = "path_Join [dirName, Name x]"
    let ?L = "tmpls (h3 ! layouts)"
    from Cons.prems(1) st have len: "length h3 \<le> length h" and tk: "take (length h3) h = h3"
      and old: "\<And>k t. pgs k = Some t \<Longrightarrow> length h3 \<le> t \<and> t < length h \<and> \<not> escaped (h ! t) \<and>
           page_compiled fs eng ?L pagesPath k (tmpls (h ! t))"
      and inj: "\<And>k k' t. pgs k = Some t \<Longrightarrow> pgs k' = Some t \<Longrightarrow> k = k'"
      by (auto simp: pages_inv_def)
    from tk assms(1) have hl: "h ! layouts = h3 ! layouts"
      by (metis nth_take)
    from assms len hl have cl: "clone h layouts = Inr (length h, h @ [\<lparr>tmpls = ?L, escaped = False\<rparr>])"
      by (simp add: clone_ok)
    from Cons.prems(2) st False cl obtain content s where
      rd: "os_ReadFile fs ?name = Inr content"
      and ps: "parse_text eng ?L (filepath_Base ?name) content = Inr s"
      and rest: "loadPages_files fs eng layouts pagesPath dirName xs
                   (pgs(?key \<mapsto> length h), h @ [\<lparr>tmpls = s, escaped = False\<rparr>]) = Inr st'"
      by (auto simp: Let_def parseFiles_page split: sum.splits)
    have "pages_inv fs eng h3 layouts pagesPath (pgs(?key \<mapsto> length h), h @ [\<lparr>tmpls = s, escaped = False\<rparr>])"
      unfolding pages_inv_def prod.case
    proof (intro conjI allI impI)
      show "length h3 \<le> length (h @ [\<lparr>tmpls = s, escaped = False\<rparr>])" using len by simp
      show "take (length h3) (h @ [\<lparr>tmpls = s, escaped = False\<rparr>]) = h3" using len tk by simp
    next
      fix k t assume kt: "(pgs(?key \<mapsto> length h)) k = Some t"
      show "length h3 \<le> t" using kt old len by (auto split: if_splits)
      show "t < length (h @ [\<lparr>tmpls = s, escaped = False\<rparr>])"
        using kt old by (fastforce split: if_splits)
      show "\<not> escaped ((h @ [\<lparr>tmpls = s, escaped = False\<rparr>]) ! t)"
        using kt old by (auto simp: nth_append split: if_splits)
      show "page_compiled fs eng ?L pagesPath k (tmpls ((h @ [\<lparr>tmpls = s, escaped = False\<rparr>]) ! t))"
      proof (cases "k = ?key")
        case True
        with kt have "t = length h" by simp
        with True rd ps show ?thesis by (auto simp: page_compiled_def)
      next
        case False
        with kt have "pgs k = Some t" by simp
        with old [of k t] show ?thesis by (simp add: nth_append)
      qed
    next
      fix k k' t
      assume a: "(pgs(?key \<mapsto> length h)) k = Some t" and b: "(pgs(?key \<mapsto> length h)) k' = Some t"
      show "k = k'"
      proof (cases "t = length h")
        case True
        with a b old show ?thesis by (fastforce split: if_splits)
      next
        case False
        with a b have "pgs k = Some t" "pgs k' = Some t" by (auto split: if_splits)
        then show ?thesis by (rule inj)
      qed
    qed
    from Cons.IH [OF this rest] show ?thesis .
  qed
qed

lemma loadPages_entries_inv:
  assumes "layouts < length h3" and "\<not> escaped (h3 ! layouts)"
  shows "pages_inv fs eng h3 layouts pagesPath st \<Longrightarrow>
         loadPages_entries fs eng layouts pagesPath entries st = Inr st' \<Longrightarrow>
         pages_inv fs eng h3 layouts pagesPath st'"
proof (induction entries arbitrary: st)
  case Nil
  then show ?case by (cases st) simp
next
  case (Cons entry entries)
  obtain pgs h where st: "st = (pgs, h)" by (cases st)
  from Cons.prems(2) st obtain files st1 where
    "loadPages_files fs eng layouts pagesPath (Name entry) files st = Inr st1"
    and rest: "loadPages_entries fs eng layouts pagesPath entries st1 = Inr st'"
    by (auto simp: Let_def split: sum.splits)
  from loadPages_files_inv [OF assms Cons.prems(1) this(1)] rest
  show ?case by (rule Cons.IH)
qed

lemma pages_inv_init: "pages_inv fs eng h3 layouts pagesPath (Map.empty, h3)"
  by (simp add: pages_inv_def)

lemma parseFiles_from_files_parse:
  "\<not> escaped ns \<Longrightarrow>
   (case files_parse fs eng (tmpls ns) fns of
      Some s \<Rightarrow> parseFiles_from fs eng (h @ [ns]) (length h) fns = Inr (length h, h @ [ns\<lparr>tmpls := s\<rparr>])
    | None \<Rightarrow> (\<exists>err. parseFiles_from fs eng (h @ [ns]) (length h) fns = Inl err))"
proof (induction fns arbitrary: ns)
  case Nil
  then show ?case by simp
next
  case (Cons fn fns)
  show ?case
  proof (cases "os_ReadFile fs fn")
    case (Inl e)
    then show ?thesis by (simp add: readFileOS_def)
  next
    case (Inr content)
    show ?thesis
    proof (cases "parse_text eng (tmpls ns) (filepath_Base fn) content")
      case (Inl e)
      with Inr Cons.prems show ?thesis by (simp add: readFileOS_def Template_Parse_last)
    next
      case (Inr s')
      from Cons.prems have "\<not> escaped (ns\<lparr>tmpls := s'\<rparr>)" by simp
      from Cons.IH [OF this] \<open>os_ReadFile fs fn = Inr content\<close> Inr Cons.prems
      show ?thesis by (simp add: readFileOS_def Template_Parse_last split: option.splits)
    qed
  qed
qed

lemma parseFiles_from_Some:
  "\<not> escaped ns \<Longrightarrow> files_parse fs eng (tmpls ns) fns = Some s \<Longrightarrow>
   parseFiles_from fs eng (h @ [ns]) (length h) fns = Inr (length h, h @ [ns\<lparr>tmpls := s\<rparr>])"
  using parseFiles_from_files_parse [where ns = ns and h = h and fs = fs and eng = eng and fns = fns]
  by simp

lemma parseFiles_from_None:
  "\<not> escaped ns \<Longrightarrow> files_parse fs eng (tmpls ns) fns = None \<Longrightarrow>
   \<exists>err. parseFiles_from fs eng (h @ [ns]) (length h) fns = Inl err"
  using parseFiles_from_files_parse [where ns = ns and h = h and fs = fs and eng = eng and fns = fns]
  by simp

lemma parseGlob_Some:
  "\<not> escaped ns \<Longrightarrow> glob_parse fs eng (tmpls ns) pat = Some s \<Longrightarrow>
   parseGlob fs eng (h @ [ns]) (Some (length h)) pat = Inr (length h, h @ [ns\<lparr>tmpls := s\<rparr>])"
  by (auto simp: glob_parse_def parseGlob_def parseFiles_def checkCanParse_def parseFiles_from_Some
      split: sum.splits if_splits)

lemma parseGlob_None:
  "\<not> escaped ns \<Longrightarrow> glob_parse fs eng (tmpls ns) pat = None \<Longrightarrow>
   \<exists>err. parseGlob fs eng (h @ [ns]) (Some (length h)) pat = Inl err"
  by (auto simp: glob_parse_def parseGlob_def parseFiles_def checkCanParse_def
      split: sum.splits if_splits dest: parseFiles_from_None)

lemma parseGlob_new_Some:
  "glob_parse fs eng Map.empty pat = Some s \<Longrightarrow>
   parseGlob fs eng h None pat = Inr (length h, h @ [\<lparr>tmpls = s, escaped = False\<rparr>])"
  using parseFiles_from_Some [where ns = "\<lparr>tmpls = Map.empty, escaped = False\<rparr>" and h = h and fs = fs and eng = eng]
  by (auto simp: glob_parse_def parseGlob_def parseFiles_def checkCanParse_def Template_New_def
      split: sum.splits if_splits)

lemma parseGlob_new_None:
  "glob_parse fs eng Map.empty pat = None \<Longrightarrow> \<exists>err. parseGlob fs eng h None pat = Inl err"
  using parseFiles_from_None [where ns = "\<lparr>tmpls = Map.empty, escaped = False\<rparr>" and h = h and fs = fs and eng = eng]
  by (auto simp: glob_parse_def parseGlob_def parseFiles_def checkCanParse_def Template_New_def
      split: sum.splits if_splits)

lemma loadPages_files_step:
  assumes "layouts < length h3" and "length h3 \<le> length h" and "take (length h3) h = h3"
    and "\<not> escaped (h3 ! layouts)" and "\<not> IsDir x"
  shows "loadPages_files fs eng layouts pagesPath dirName (x # xs) (pgs, h) =
     (case os_ReadFile fs (path_Join [pagesPath, dirName, Name x]) of
        Inl err \<Rightarrow> Inl (WrapError (''failed to parse page template '' @ path_Join [pagesPath, dirName, Name x]) err)
      | Inr content \<Rightarrow>
          (case parse_text eng (tmpls (h3 ! layouts)) (filepath_Base (path_Join [pagesPath, dirName, Name x])) content of
             Inl err \<Rightarrow> Inl (WrapError (''failed to parse page template '' @ path_Join [pagesPath, dirName, Name x]) err)
           | Inr s \<Rightarrow>
               loadPages_files fs eng layouts pagesPath dirName xs
                 (pgs(path_Join [dirName, Name x] \<mapsto> length h), h @ [\<lparr>tmpls = s, escaped = False\<rparr>])))"
proof -
  from assms have hl: "h ! layouts = h3 ! layouts" by (metis nth_take)
  with assms have "clone h layouts = Inr (length h, h @ [\<lparr>tmpls = tmpls (h3 ! layouts), escaped = False\<rparr>])"
    by (simp add: clone_ok)
  with assms(5) show ?thesis
    by (simp add: Let_def parseFiles_page split: sum.splits)
qed

lemma loadPages_files_ok:
  assumes "layouts < length h3" and "\<not> escaped (h3 ! layouts)"
  shows "length h3 \<le> length h \<Longrightarrow> take (length h3) h = h3 \<Longrightarrow>
     (\<exists>st'. loadPages_files fs eng layouts pagesPath dirName files (pgs, h) = Inr st') =
     list_all (\<lambda>file. IsDir file \<or>
        page_file_ok fs eng (tmpls (h3 ! layouts)) (path_Join [pagesPath, dirName, Name file])) files"
proof (induction files arbitrary: pgs h)
  case Nil
  then show ?case by simp
next
  case (Cons x xs)
  show ?case
  proof (cases "IsDir x")
    case True
    with Cons show ?thesis by simp
  next
    case False
    have step: "\<And>s k. (\<exists>st'. loadPages_files fs eng layouts pagesPath dirName xs
          (pgs(k \<mapsto> length h), h @ [\<lparr>tmpls = s, escaped = False\<rparr>]) = Inr st') =
        list_all (\<lambda>file. IsDir file \<or>
          page_file_ok fs eng (tmpls (h3 ! layouts)) (path_Join [pagesPath, dirName, Name file])) xs"
      using Cons.prems by (intro Cons.IH) simp_all
    show ?thesis
      unfolding loadPages_files_step [OF assms(1) Cons.prems(1) Cons.prems(2) assms(2) False]
      using False step
      by (simp add: page_file_ok_def split: sum.splits)
  qed
qed

lemma loadPages_files_grows:
  assumes "layouts < length h3" and "\<not> escaped (h3 ! layouts)"
  shows "length h3 \<le> length h \<Longrightarrow> take (length h3) h = h3 \<Longrightarrow>
     loadPages_files fs eng layouts pagesPath dirName files (pgs, h) = Inr (pgs', h') \<Longrightarrow>
     length h3 \<le> length h' \<and> take (length h3) h' = h3"
proof (induction files arbitrary: pgs h)
  case Nil
  then show ?case by simp
next
  case (Cons x xs)
  show ?case
  proof (cases "IsDir x")
    case True
    with Cons show ?thesis by simp
  next
    case False
    from Cons.prems(3)
    show ?thesis
      unfolding loadPages_files_step [OF assms(1) Cons.prems(1) Cons.prems(2) assms(2) False]
      using Cons.prems(1,2)
      by (auto split: sum.splits dest!: Cons.IH [rotated 2])
  qed
qed

lemma loadPages_entries_ok:
  assumes "layouts < length h3" and "\<not> escaped (h3 ! layouts)"
  shows "length h3 \<le> length h \<Longrightarrow> take (length h3) h = h3 \<Longrightarrow>
     (\<exists>st'. loadPages_entries fs eng layouts pagesPath entries (pgs, h) = Inr st') =
     list_all (category_ok fs eng (tmpls (h3 ! layouts)) pagesPath) entries"
proof (induction entries arbitrary: pgs h)
  case Nil
  then show ?case by simp
next
  case (Cons entry entries)
  show ?case
  proof (cases "os_ReadDir fs (path_Join [pagesPath, Name entry])")
    case (Inl e)
    then show ?thesis by (simp add: category_ok_def Let_def)
  next
    case (Inr files)
    note ok = loadPages_files_ok [OF assms Cons.prems, of fs eng pagesPath "Name entry" files pgs]
    show ?thesis
    proof (cases "loadPages_files fs eng layouts pagesPath (Name entry) files (pgs, h)")
      case (Inl e)
      with ok Inr show ?thesis by (simp add: category_ok_def Let_def)
    next
      case r: (Inr st1)
      obtain pgs1 h1 where st1: "st1 = (pgs1, h1)" by (cases st1)
      from r st1 have "loadPages_files fs eng layouts pagesPath (Name entry) files (pgs, h) = Inr (pgs1, h1)"
        by simp
      from loadPages_files_grows [OF assms Cons.prems this]
      have "length h3 \<le> length h1" "take (length h3) h1 = h3" by auto
      from Cons.IH [OF this, of pgs1] r st1 ok Inr show ?thesis
        by (simp add: category_ok_def Let_def)
    qed
  qed
qed

lemma loadRoot_Some:
  "glob_parse fs eng Map.empty (path_Join [basePath tc, ''root.html'']) = Some R \<Longrightarrow>
   loadRoot fs eng h tc = Inr (length h, h @ [\<lparr>tmpls = R, escaped = False\<rparr>])"
  by (simp add: loadRoot_def parseGlob_new_Some)

lemma loadRoot_None:
  "glob_parse fs eng Map.empty (path_Join [basePath tc, ''root.html'']) = None \<Longrightarrow>
   \<exists>err. loadRoot fs eng h tc = Inl err"
  using parseGlob_new_None [of fs eng "path_Join [basePath tc, ''root.html'']" h]
  by (auto simp: loadRoot_def)

lemma loadPartials_Some:
  "glob_parse fs eng R (path_Join [basePath tc, ''partials'', ''*.html'']) = Some P \<Longrightarrow>
   loadPartials fs eng (h @ [\<lparr>tmpls = R, escaped = False\<rparr>]) tc (length h) =
     Inr (Suc (length h), h @ [\<lparr>tmpls = R, escaped = False\<rparr>, \<lparr>tmpls = P, escaped = False\<rparr>])"
  using parseGlob_Some [of "\<lparr>tmpls = R, escaped = False\<rparr>" fs eng
      "path_Join [basePath tc, ''partials'', ''*.html'']" P "h @ [\<lparr>tmpls = R, escaped = False\<rparr>]"]
  by (simp add: loadPartials_def clone_ok)

lemma loadPartials_None:
  "glob_parse fs eng R (path_Join [basePath tc, ''partials'', ''*.html'']) = None \<Longrightarrow>
   \<exists>err. loadPartials fs eng (h @ [\<lparr>tmpls = R, escaped = False\<rparr>]) tc (length h) = Inl err"
  using parseGlob_None [of "\<lparr>tmpls = R, escaped = False\<rparr>" fs eng
      "path_Join [basePath tc, ''partials'', ''*.html'']" "h @ [\<lparr>tmpls = R, escaped = False\<rparr>]"]
  by (auto simp: loadPartials_def clone_ok)

lemma loadLayouts_Some:
  "glob_parse fs eng P (path_Join [basePath tc, ''layouts'', ''*.html'']) = Some L \<Longrightarrow>
   loadLayouts fs eng (h @ [\<lparr>tmpls = P, escaped = False\<rparr>]) tc (length h) =
     Inr (Suc (length h), h @ [\<lparr>tmpls = P, escaped = False\<rparr>, \<lparr>tmpls = L, escaped = False\<rparr>])"
  using parseGlob_Some [of "\<lparr>tmpls = P, escaped = False\<rparr>" fs eng
      "path_Join [basePath tc, ''layouts'', ''*.html'']" L "h @ [\<lparr>tmpls = P, escaped = False\<rparr>]"]
  by (simp add: loadLayouts_def clone_ok)

lemma loadLayouts_None:
  "glob_parse fs eng P (path_Join [basePath tc, ''layouts'', ''*.html'']) = None \<Longrightarrow>
   \<exists>err. loadLayouts fs eng (h @ [\<lparr>tmpls = P, escaped = False\<rparr>]) tc (length h) = Inl err"
  using parseGlob_None [of "\<lparr>tmpls = P, escaped = False\<rparr>" fs eng
      "path_Join [basePath tc, ''layouts'', ''*.html'']" "h @ [\<lparr>tmpls = P, escaped = False\<rparr>]"]
  by (auto simp: loadLayouts_def clone_ok)

text \<open>The heap in which the three shared sets are complete.\<close>

lemma New_stages:
  assumes "glob_parse fs eng Map.empty (path_Join [base, ''root.html'']) = Some R"
    and "glob_parse fs eng R (path_Join [base, ''partials'', ''*.html'']) = Some P"
    and "glob_parse fs eng P (path_Join [base, ''layouts'', ''*.html'']) = Some L"
  shows "New fs eng h base =
     (case os_ReadDir fs (path_Join [base, ''pages'']) of
        Inl err \<Rightarrow> Inl (WrapError ''could not read the pages directory'' err)
      | Inr entries \<Rightarrow>
          (case loadPages_entries fs eng (Suc (Suc (length h))) (path_Join [base, ''pages'']) entries
                  (Map.empty, h @ [\<lparr>tmpls = R, escaped = False\<rparr>, \<lparr>tmpls = P, escaped = False\<rparr>,
                                   \<lparr>tmpls = L, escaped = False\<rparr>]) of
             Inl err \<Rightarrow> Inl err
           | Inr (pgs, h4) \<Rightarrow> Inr (\<lparr>basePath = base, pages = pgs\<rparr>, h4)))"
proof -
  let ?tc = "\<lparr>basePath = base, pages = Map.empty\<rparr>"
  have r: "loadRoot fs eng h ?tc = Inr (length h, h @ [\<lparr>tmpls = R, escaped = False\<rparr>])"
    using assms(1) by (simp add: loadRoot_Some)
  have p: "loadPartials fs eng (h @ [\<lparr>tmpls = R, escaped = False\<rparr>]) ?tc (length h) =
     Inr (Suc (length h), h @ [\<lparr>tmpls = R, escaped = False\<rparr>, \<lparr>tmpls = P, escaped = False\<rparr>])"
    using assms(2) by (simp add: loadPartials_Some)
  have l: "loadLayouts fs eng (h @ [\<lparr>tmpls = R, escaped = False\<rparr>, \<lparr>tmpls = P, escaped = False\<rparr>]) ?tc (Suc (length h)) =
     Inr (Suc (Suc (length h)), h @ [\<lparr>tmpls = R, escaped = False\<rparr>, \<lparr>tmpls = P, escaped = False\<rparr>,
                                     \<lparr>tmpls = L, escaped = False\<rparr>])"
    using assms(3) loadLayouts_Some [of fs eng P ?tc L "h @ [\<lparr>tmpls = R, escaped = False\<rparr>]"]
    by simp
  show ?thesis
    by (simp add: New_def loadPages_def r p l Let_def split: sum.splits prod.splits)
qed

lemma New_Inr_stages:
  assumes "New fs eng h base = Inr r"
  shows "\<exists>R P L. glob_parse fs eng Map.empty (path_Join [base, ''root.html'']) = Some R \<and>
     glob_parse fs eng R (path_Join [base, ''partials'', ''*.html'']) = Some P \<and>
     glob_parse fs eng P (path_Join [base, ''layouts'', ''*.html'']) = Some L"
proof -
  let ?tc = "\<lparr>basePath = base, pages = Map.empty\<rparr>"
  obtain R where R: "glob_parse fs eng Map.empty (path_Join [base, ''root.html'']) = Some R"
    using assms loadRoot_None [of fs eng ?tc h]
    by (cases "glob_parse fs eng Map.empty (path_Join [base, ''root.html''])")
       (auto simp: New_def loadPages_def)
  have r: "loadRoot fs eng h ?tc = Inr (length h, h @ [\<lparr>tmpls = R, escaped = False\<rparr>])"
    using R by (simp add: loadRoot_Some)
  obtain P where P: "glob_parse fs eng R (path_Join [base, ''partials'', ''*.html'']) = Some P"
    using assms r loadPartials_None [of fs eng R ?tc h]
    by (cases "glob_parse fs eng R (path_Join [base, ''partials'', ''*.html''])")
       (auto simp: New_def loadPages_def)
  have p: "loadPartials fs eng (h @ [\<lparr>tmpls = R, escaped = False\<rparr>]) ?tc (length h) =
     Inr (Suc (length h), h @ [\<lparr>tmpls = R, escaped = False\<rparr>, \<lparr>tmpls = P, escaped = False\<rparr>])"
    using P by (simp add: loadPartials_Some)
  obtain L where L: "glob_parse fs eng P (path_Join [base, ''layouts'', ''*.html'']) = Some L"
    using assms r p loadLayouts_None [of fs eng P ?tc "h @ [\<lparr>tmpls = R, escaped = False\<rparr>]"]
    by (cases "glob_parse fs eng P (path_Join [base, ''layouts'', ''*.html''])")
       (auto simp: New_def loadPages_def)
  from R P L show ?thesis by blast
qed

lemma loadPages_files_dom:
  assumes "layouts < length h3" and "\<not> escaped (h3 ! layouts)"
  shows "length h3 \<le> length h \<Longrightarrow> take (length h3) h = h3 \<Longrightarrow>
     loadPages_files fs eng layouts pagesPath dirName files (pgs, h) = Inr (pgs', h') \<Longrightarrow>
     dom pgs' = dom pgs \<union> (\<lambda>file. path_Join [dirName, Name file]) ` {file \<in> set files. \<not> IsDir file}"
proof (induction files arbitrary: pgs h)
  case Nil
  then show ?case by simp
next
  case (Cons x xs)
  show ?case
  proof (cases "IsDir x")
    case True
    with Cons show ?thesis by auto
  next
    case False
    from Cons.prems(3) obtain s where
      rest: "loadPages_files fs eng layouts pagesPath dirName xs
               (pgs(path_Join [dirName, Name x] \<mapsto> length h), h @ [\<lparr>tmpls = s, escaped = False\<rparr>]) = Inr (pgs', h')"
      unfolding loadPages_files_step [OF assms(1) Cons.prems(1) Cons.prems(2) assms(2) False]
      by (auto split: sum.splits)
    from Cons.prems(1,2) have "length h3 \<le> length (h @ [\<lparr>tmpls = s, escaped = False\<rparr>])"
      "take (length h3) (h @ [\<lparr>tmpls = s, escaped = False\<rparr>]) = h3" by simp_all
    from Cons.IH [OF this rest]
    have "dom pgs' = insert (path_Join [dirName, Name x]) (dom pgs) \<union>
        (\<lambda>file. path_Join [dirName, Name file]) ` {file \<in> set xs. \<not> IsDir file}"
      by (auto simp: dom_def split: if_splits)
    also have "\<dots> = dom pgs \<union>
        (\<lambda>file. path_Join [dirName, Name file]) ` {file \<in> set (x # xs). \<not> IsDir file}"
      using False by auto
    finally show ?thesis .
  qed
qed

lemma loadPages_entries_dom:
  assumes "layouts < length h3" and "\<not> escaped (h3 ! layouts)"
  shows "length h3 \<le> length h \<Longrightarrow> take (length h3) h = h3 \<Longrightarrow>
     loadPages_entries fs eng layouts pagesPath entries (pgs, h) = Inr (pgs', h') \<Longrightarrow>
     dom pgs' = dom pgs \<union>
       (\<lambda>df. path_Join [fst df, snd df]) ` set (concat (map (category_files fs pagesPath) entries))"
proof (induction entries arbitrary: pgs h)
  case Nil
  then show ?case by simp
next
  case (Cons entry entries)
  from Cons.prems(3) obtain files pgs1 h1 where
    ls: "os_ReadDir fs (path_Join [pagesPath, Name entry]) = Inr files"
    and fl: "loadPages_files fs eng layouts pagesPath (Name entry) files (pgs, h) = Inr (pgs1, h1)"
    and rest: "loadPages_entries fs eng layouts pagesPath entries (pgs1, h1) = Inr (pgs', h')"
    by (auto simp: Let_def split: sum.splits)
  from loadPages_files_grows [OF assms Cons.prems(1,2) fl]
  have g: "length h3 \<le> length h1" "take (length h3) h1 = h3" by auto
  have "dom pgs1 = dom pgs \<union> (\<lambda>df. path_Join [fst df, snd df]) ` set (category_files fs pagesPath entry)"
    using loadPages_files_dom [OF assms Cons.prems(1,2) fl] ls
    by (auto simp: category_files_def image_iff)
  with Cons.IH [OF g rest] show ?case by auto
qed

lemma New_Inr_loop:
  assumes "New fs eng h0 base = Inr (tc, h)"
  obtains R P L entries where
    "glob_parse fs eng Map.empty (path_Join [base, ''root.html'']) = Some R"
    "glob_parse fs eng R (path_Join [base, ''partials'', ''*.html'']) = Some P"
    "glob_parse fs eng P (path_Join [base, ''layouts'', ''*.html'']) = Some L"
    "os_ReadDir fs (path_Join [base, ''pages'']) = Inr entries"
    "loadPages_entries fs eng (Suc (Suc (length h0))) (path_Join [base, ''pages'']) entries
       (Map.empty, h0 @ [\<lparr>tmpls = R, escaped = False\<rparr>, \<lparr>tmpls = P, escaped = False\<rparr>,
                         \<lparr>tmpls = L, escaped = False\<rparr>]) = Inr (pages tc, h)"
    "basePath tc = base"
proof -
  from New_Inr_stages [OF assms] obtain R P L where
    st: "glob_parse fs eng Map.empty (path_Join [base, ''root.html'']) = Some R"
      "glob_parse fs eng R (path_Join [base, ''partials'', ''*.html'']) = Some P"
      "glob_parse fs eng P (path_Join [base, ''layouts'', ''*.html'']) = Some L"
    by blast
  from assms obtain entries where
    "os_ReadDir fs (path_Join [base, ''pages'']) = Inr entries"
    "loadPages_entries fs eng (Suc (Suc (length h0))) (path_Join [base, ''pages'']) entries
       (Map.empty, h0 @ [\<lparr>tmpls = R, escaped = False\<rparr>, \<lparr>tmpls = P, escaped = False\<rparr>,
                         \<lparr>tmpls = L, escaped = False\<rparr>]) = Inr (pages tc, h)"
    "basePath tc = base"
    unfolding New_stages [OF st]
    by (auto split: sum.splits prod.splits)
  with st show ?thesis by (rule that)
qed

lemma take_take_append:
  assumes "take m h = xs @ ys"
  shows "take (length xs) h = xs"
proof -
  from assms have "length (take m h) = length xs + length ys" by simp
  then have "length xs \<le> m" by simp
  then have "take (length xs) (take m h) = take (length xs) h" by (simp add: min_def)
  with assms show ?thesis by simp
qed

lemma New_pages_inv:
  assumes "New fs eng h0 base = Inr (tc, h)"
  obtains R P L where
    "glob_parse fs eng Map.empty (path_Join [base, ''root.html'']) = Some R"
    "glob_parse fs eng R (path_Join [base, ''partials'', ''*.html'']) = Some P"
    "glob_parse fs eng P (path_Join [base, ''layouts'', ''*.html'']) = Some L"
    "pages_inv fs eng
       (h0 @ [\<lparr>tmpls = R, escaped = False\<rparr>, \<lparr>tmpls = P, escaped = False\<rparr>, \<lparr>tmpls = L, escaped = False\<rparr>])
       (Suc (Suc (length h0))) (path_Join [base, ''pages'']) (pages tc, h)"
    "basePath tc = base"
proof -
  from assms obtain R P L entries where
    st: "glob_parse fs eng Map.empty (path_Join [base, ''root.html'']) = Some R"
      "glob_parse fs eng R (path_Join [base, ''partials'', ''*.html'']) = Some P"
      "glob_parse fs eng P (path_Join [base, ''layouts'', ''*.html'']) = Some L"
    and loop: "loadPages_entries fs eng (Suc (Suc (length h0))) (path_Join [base, ''pages'']) entries
       (Map.empty, h0 @ [\<lparr>tmpls = R, escaped = False\<rparr>, \<lparr>tmpls = P, escaped = False\<rparr>,
                         \<lparr>tmpls = L, escaped = False\<rparr>]) = Inr (pages tc, h)"
    and bp: "basePath tc = base"
    by (rule New_Inr_loop)
  let ?h3 = "h0 @ [\<lparr>tmpls = R, escaped = False\<rparr>, \<lparr>tmpls = P, escaped = False\<rparr>, \<lparr>tmpls = L, escaped = False\<rparr>]"
  have lt: "Suc (Suc (length h0)) < length ?h3" by simp
  have ne: "\<not> escaped (?h3 ! Suc (Suc (length h0)))" by (simp add: nth_append)
  from loadPages_entries_inv [OF lt ne pages_inv_init loop]
  have "pages_inv fs eng ?h3 (Suc (Suc (length h0))) (path_Join [base, ''pages'']) (pages tc, h)" .
  with st show ?thesis using bp by (rule that)
qed

lemma New_pages_valid:
  assumes "New fs eng h0 base = Inr (tc, h)" and "pages tc k = Some t"
  shows "t < length h"
proof -
  from assms(1) obtain R P L where
    "pages_inv fs eng
       (h0 @ [\<lparr>tmpls = R, escaped = False\<rparr>, \<lparr>tmpls = P, escaped = False\<rparr>, \<lparr>tmpls = L, escaped = False\<rparr>])
       (Suc (Suc (length h0))) (path_Join [base, ''pages'']) (pages tc, h)"
    by (rule New_pages_inv)
  then have "\<forall>k t. pages tc k = Some t \<longrightarrow>
      length (h0 @ [\<lparr>tmpls = R, escaped = False\<rparr>, \<lparr>tmpls = P, escaped = False\<rparr>, \<lparr>tmpls = L, escaped = False\<rparr>]) \<le> t \<and>
      t < length h \<and> \<not> escaped (h ! t) \<and>
      page_compiled fs eng
        (tmpls ((h0 @ [\<lparr>tmpls = R, escaped = False\<rparr>, \<lparr>tmpls = P, escaped = False\<rparr>, \<lparr>tmpls = L, escaped = False\<rparr>]) !
                Suc (Suc (length h0))))
        (path_Join [base, ''pages'']) k (tmpls (h ! t))"
    unfolding pages_inv_def prod.case by (elim conjE)
  with assms(2) show ?thesis by blast
qed

lemma loadRoot_Inr_glob:
  assumes "loadRoot fs eng h tc = Inr (root, h1)"
  obtains R where "glob_parse fs eng Map.empty (path_Join [basePath tc, ''root.html'']) = Some R"
    "root = length h" "h1 = h @ [\<lparr>tmpls = R, escaped = False\<rparr>]"
proof (cases "glob_parse fs eng Map.empty (path_Join [basePath tc, ''root.html''])")
  case None
  from loadRoot_None [OF this, of h] assms show ?thesis by auto
next
  case (Some R)
  from loadRoot_Some [OF this, of h] assms that [OF Some] show ?thesis by simp
qed

lemma loadPartials_Inr_glob:
  assumes "loadPartials fs eng (h @ [\<lparr>tmpls = R, escaped = False\<rparr>]) tc (length h) = Inr (partials, h2)"
  obtains P where "glob_parse fs eng R (path_Join [basePath tc, ''partials'', ''*.html'']) = Some P"
    "partials = Suc (length h)"
    "h2 = h @ [\<lparr>tmpls = R, escaped = False\<rparr>, \<lparr>tmpls = P, escaped = False\<rparr>]"
proof (cases "glob_parse fs eng R (path_Join [basePath tc, ''partials'', ''*.html''])")
  case None
  from loadPartials_None [OF this, of h] assms show ?thesis by auto
next
  case (Some P)
  from loadPartials_Some [OF this, of h] assms that [OF Some] show ?thesis by simp
qed

lemma loadLayouts_Inr_glob:
  assumes "loadLayouts fs eng (h @ [\<lparr>tmpls = P, escaped = False\<rparr>]) tc (length h) = Inr (layouts, h3)"
  obtains L where "glob_parse fs eng P (path_Join [basePath tc, ''layouts'', ''*.html'']) = Some L"
    "layouts = Suc (length h)"
    "h3 = h @ [\<lparr>tmpls = P, escaped = False\<rparr>, \<lparr>tmpls = L, escaped = False\<rparr>]"
proof (cases "glob_parse fs eng P (path_Join [basePath tc, ''layouts'', ''*.html''])")
  case None
  from loadLayouts_None [OF this, of h] assms show ?thesis by auto
next
  case (Some L)
  from loadLayouts_Some [OF this, of h] assms that [OF Some] show ?thesis by simp
qed

text \<open>The three shared sets, from the results of the three steps.\<close>

lemma stages_glob:
  assumes "loadRoot fs eng h tc = Inr (root, h1)"
    and "loadPartials fs eng h1 tc root = Inr (partials, h2)"
    and "loadLayouts fs eng h2 tc partials = Inr (layouts, h3)"
  obtains R P L where
    "glob_parse fs eng Map.empty (path_Join [basePath tc, ''root.html'']) = Some R"
    "glob_parse fs eng R (path_Join [basePath tc, ''partials'', ''*.html'']) = Some P"
    "glob_parse fs eng P (path_Join [basePath tc, ''layouts'', ''*.html'']) = Some L"
    "layouts = Suc (Suc (length h))"
    "h3 = h @ [\<lparr>tmpls = R, escaped = False\<rparr>, \<lparr>tmpls = P, escaped = False\<rparr>, \<lparr>tmpls = L, escaped = False\<rparr>]"
proof -
  from assms(1) obtain R where R: "glob_parse fs eng Map.empty (path_Join [basePath tc, ''root.html'']) = Some R"
    and 1: "root = length h" "h1 = h @ [\<lparr>tmpls = R, escaped = False\<rparr>]"
    by (rule loadRoot_Inr_glob)
  from assms(2) 1 obtain P where P: "glob_parse fs eng R (path_Join [basePath tc, ''partials'', ''*.html'']) = Some P"
    and 2: "partials = Suc (length h)" "h2 = h @ [\<lparr>tmpls = R, escaped = False\<rparr>, \<lparr>tmpls = P, escaped = False\<rparr>]"
    by (auto elim: loadPartials_Inr_glob)
  from assms(3) 2 have "loadLayouts fs eng ((h @ [\<lparr>tmpls = R, escaped = False\<rparr>]) @ [\<lparr>tmpls = P, escaped = False\<rparr>]) tc
      (length (h @ [\<lparr>tmpls = R, escaped = False\<rparr>])) = Inr (layouts, h3)" by simp
  then obtain L where L: "glob_parse fs eng P (path_Join [basePath tc, ''layouts'', ''*.html'']) = Some L"
    and 3: "layouts = Suc (length (h @ [\<lparr>tmpls = R, escaped = False\<rparr>]))"
      "h3 = (h @ [\<lparr>tmpls = R, escaped = False\<rparr>]) @ [\<lparr>tmpls = P, escaped = False\<rparr>, \<lparr>tmpls = L, escaped = False\<rparr>]"
    by (rule loadLayouts_Inr_glob)
  from R P L 3 show ?thesis by (intro that) simp_all
qed

lemma loadPages_files_err:
  "loadPages_files fs eng layouts pagesPath dirName files st = Inl err \<Longrightarrow> \<exists>ctx e. err = WrapError ctx e"
proof (induction files arbitrary: st)
  case Nil
  then show ?case by (cases st) simp
next
  case (Cons x xs)
  obtain pgs h where st: "st = (pgs, h)" by (cases st)
  from Cons.prems show ?case
    unfolding st
    by (auto simp: Let_def split: if_splits sum.splits prod.splits dest: Cons.IH)
qed

lemma loadPages_entries_err:
  "loadPages_entries fs eng layouts pagesPath entries st = Inl err \<Longrightarrow> \<exists>ctx e. err = WrapError ctx e"
proof (induction entries arbitrary: st)
  case Nil
  then show ?case by (cases st) simp
next
  case (Cons x xs)
  obtain pgs h where st: "st = (pgs, h)" by (cases st)
  from Cons.prems show ?case
    unfolding st
    by (auto simp: Let_def split: if_splits sum.splits prod.splits dest: Cons.IH loadPages_files_err)
qed

lemma New_err: "New fs eng h base = Inl err \<Longrightarrow> \<exists>ctx e. err = WrapError ctx e"
  by (auto simp: New_def loadPages_def Let_def split: sum.splits prod.splits dest: loadPages_entries_err)

lemma loadPages_entries_first_bad:
  assumes "layouts < length h3" and "\<not> escaped (h3 ! layouts)"
  shows "length h3 \<le> length h \<Longrightarrow> take (length h3) h = h3 \<Longrightarrow> entry \<in> set entries \<Longrightarrow>
     os_ReadDir fs (path_Join [pagesPath, Name entry]) = Inl e \<Longrightarrow>
     list_all (category_ok fs eng (tmpls (h3 ! layouts)) pagesPath) (takeWhile (\<lambda>x. x \<noteq> entry) entries) \<Longrightarrow>
     loadPages_entries fs eng layouts pagesPath entries (pgs, h) =
       Inl (WrapError (''could not read the subpages directory '' @ path_Join [pagesPath, Name entry]) e)"
proof (induction entries arbitrary: pgs h)
  case Nil
  then show ?case by simp
next
  case (Cons x xs)
  show ?case
  proof (cases "x = entry")
    case True
    with Cons.prems(4) show ?thesis by (simp add: Let_def)
  next
    case False
    with Cons.prems have ok: "category_ok fs eng (tmpls (h3 ! layouts)) pagesPath x"
      and rest: "list_all (category_ok fs eng (tmpls (h3 ! layouts)) pagesPath) (takeWhile (\<lambda>x. x \<noteq> entry) xs)"
      and mem: "entry \<in> set xs"
      by auto
    from ok obtain files where ls: "os_ReadDir fs (path_Join [pagesPath, Name x]) = Inr files"
      and fl: "list_all (\<lambda>file. IsDir file \<or>
          page_file_ok fs eng (tmpls (h3 ! layouts)) (path_Join [pagesPath, Name x, Name file])) files"
      by (auto simp: category_ok_def split: sum.splits)
    from fl loadPages_files_ok [OF assms Cons.prems(1,2), of fs eng pagesPath "Name x" files pgs]
    obtain pgs1 h1 where st1: "loadPages_files fs eng layouts pagesPath (Name x) files (pgs, h) = Inr (pgs1, h1)"
      by auto
    from loadPages_files_grows [OF assms Cons.prems(1,2) st1]
    have "length h3 \<le> length h1" "take (length h3) h1 = h3" by auto
    from Cons.IH [OF this mem Cons.prems(4) rest, of pgs1] ls st1 show ?thesis
      by (simp add: Let_def)
  qed
qed

lemma loadPages_files_skip_dirs:
  "loadPages_files fs eng layouts pagesPath dirName (filter (\<lambda>file. \<not> IsDir file) files) (pgs, h) =
   loadPages_files fs eng layouts pagesPath dirName files (pgs, h)"
proof (induction files arbitrary: pgs h)
  case Nil
  show ?case by simp
next
  case (Cons x xs)
  show ?case
  proof (cases "IsDir x")
    case True
    with Cons show ?thesis by simp
  next
    case False
    with Cons show ?thesis
      by (simp add: Let_def fun_upd_def split: sum.splits prod.splits)
  qed
qed

section \<open>What rendering does to the heap\<close>

lemma ExecuteTemplate_heap:
  "ExecuteTemplate eng h t w name data = (err, w', h') \<Longrightarrow> h' = h[t := (h ! t)\<lparr>escaped := True\<rparr>]"
  by (cases "t < length h")
     (auto simp: ExecuteTemplate_def Let_def list_update_beyond split: option.splits prod.splits)

lemma ExecuteTemplate_mark:
  "ExecuteTemplate eng (h[t := (h ! t)\<lparr>escaped := True\<rparr>]) t2 w name data =
     (case ExecuteTemplate eng h t2 w name data of
        (err, w', h') \<Rightarrow> (err, w', h'[t := (h' ! t)\<lparr>escaped := True\<rparr>]))"
  by (cases "t < length h"; cases "t = t2")
     (auto simp: ExecuteTemplate_def Let_def list_update_swap list_update_beyond
        split: option.splits prod.splits)

lemma ExecuteTemplate_again:
  assumes "ExecuteTemplate eng h t w name data = (e1, w1, h1)"
  shows "ExecuteTemplate eng h1 t w name data = (e1, w1, h1)"
  using assms
  by (auto simp: ExecuteTemplate_def Let_def split: if_splits option.splits prod.splits)

lemma engine_state_valid:
  "engine_state fs eng tc h \<Longrightarrow> pages tc k = Some t \<Longrightarrow> t < length h"
proof (induction arbitrary: k t rule: engine_state.induct)
  case (built h0 base tc h)
  then show ?case by (rule New_pages_valid)
next
  case (rendered tc h w layout page data err w' tc' h')
  from rendered(2) have "tc' = tc" "length h' = length h"
    by (auto simp: RenderPage_def ExecuteTemplate_def Let_def split: option.splits prod.splits if_splits)
  with rendered show ?case by simp
qed

section \<open>The example, evaluated\<close>

lemmas example_defs =
  New_def loadPages_def loadRoot_def loadPartials_def loadLayouts_def clone_def
  Template_Clone_def Template_New_def Template_Parse_def checkCanParse_def parseFiles_def
  parseGlob_def readFileOS_def os_ReadFile_def os_ReadDir_def path_Join_def path_Clean_def
  filepath_Base_def example_fs_def example_engine_def example_nodes_def example_globs_def
  glob_of_def example_tc_def example_heap_def Let_def eval_nat_numeral

lemma example_New:
  "New example_fs example_engine [] ''examples'' = Inr (example_tc, example_heap)"
  by (simp add: example_defs)

lemma example_state: "engine_state example_fs example_engine example_tc example_heap"
  using example_New by (rule engine_state.built)

lemmas spec_defs =
  glob_parse_def pages_ok_def category_ok_def page_file_ok_def leaf_files_def category_files_def
  valid_name_def page_key_def no_partials_fs_def no_layouts_fs_def stray_file_fs_def
  example_heap_rendered_def RenderPage_def ExecuteTemplate_def

lemma example_loadRoot:
  "loadRoot example_fs example_engine [] example_tc = Inr (0, take 1 example_heap)"
  by (simp add: example_defs)

lemma example_loadPartials:
  "loadPartials example_fs example_engine (take 1 example_heap) example_tc 0 = Inr (1, take 2 example_heap)"
  by (simp add: example_defs)

lemma example_loadLayouts:
  "loadLayouts example_fs example_engine (take 2 example_heap) example_tc 1 = Inr (2, take 3 example_heap)"
  by (simp add: example_defs)

lemma example_render:
  "RenderPage example_engine example_tc example_heap [] ''app.html'' ''home/index.html'' ''!'' =
     (None, ''app_layout!'', example_tc, example_heap_rendered)"
  by (simp add: example_defs spec_defs)

lemma example_render_again:
  "RenderPage example_engine example_tc example_heap_rendered [] ''app.html'' ''home/index.html'' ''!'' =
     (None, ''app_layout!'', example_tc, example_heap_rendered)"
  by (simp add: example_defs spec_defs)

lemma example_leaf_files:
  "leaf_files example_fs (path_Join [''examples'', ''pages'']) = [(''home'', ''index.html'')]"
  by (simp add: example_defs spec_defs)

section \<open>Construction\<close>

text \<open>
  C2, as amended. \<open>New\<close> succeeds if and only if each of its four steps does: the
  pattern of the root template matches and the matched file reads and parses; the
  partials step succeeds; the pattern of the layouts matches at least one file and
  every matched file reads and parses on top of the partials set; the pages directory
  can be listed, every entry of it can be listed, and every entry of those that is not
  a directory reads and parses on top of the layout set. A missing pages directory and
  a layouts pattern without a match both make \<open>pages_ok\<close> or \<open>glob_parse\<close> fail, so
  construction fails.
\<close>

theorem New_succeeds_iff:
  "(\<exists>r. New fs eng h base = Inr r) \<longleftrightarrow>
   (\<exists>R P L.
      glob_parse fs eng Map.empty (path_Join [base, ''root.html'']) = Some R \<and>
      glob_parse fs eng R (path_Join [base, ''partials'', ''*.html'']) = Some P \<and>
      glob_parse fs eng P (path_Join [base, ''layouts'', ''*.html'']) = Some L \<and>
      pages_ok fs eng L (path_Join [base, ''pages'']))"
proof
  assume "\<exists>r. New fs eng h base = Inr r"
  then obtain r where r: "New fs eng h base = Inr r" ..
  from New_Inr_stages [OF r] obtain R P L where
    st: "glob_parse fs eng Map.empty (path_Join [base, ''root.html'']) = Some R"
      "glob_parse fs eng R (path_Join [base, ''partials'', ''*.html'']) = Some P"
      "glob_parse fs eng P (path_Join [base, ''layouts'', ''*.html'']) = Some L"
    by blast
  let ?h3 = "h @ [\<lparr>tmpls = R, escaped = False\<rparr>, \<lparr>tmpls = P, escaped = False\<rparr>, \<lparr>tmpls = L, escaped = False\<rparr>]"
  have ok: "\<And>entries. (\<exists>st'. loadPages_entries fs eng (Suc (Suc (length h))) (path_Join [base, ''pages'']) entries
                (Map.empty, ?h3) = Inr st') =
        list_all (category_ok fs eng L (path_Join [base, ''pages''])) entries"
    using loadPages_entries_ok [of "Suc (Suc (length h))" ?h3 ?h3 fs eng "path_Join [base, ''pages'']" _ Map.empty]
    by (simp add: nth_append)
  from r have "pages_ok fs eng L (path_Join [base, ''pages''])"
    unfolding New_stages [OF st] pages_ok_def
    by (auto split: sum.splits prod.splits simp: ok [symmetric])
  with st show "\<exists>R P L.
      glob_parse fs eng Map.empty (path_Join [base, ''root.html'']) = Some R \<and>
      glob_parse fs eng R (path_Join [base, ''partials'', ''*.html'']) = Some P \<and>
      glob_parse fs eng P (path_Join [base, ''layouts'', ''*.html'']) = Some L \<and>
      pages_ok fs eng L (path_Join [base, ''pages''])" by blast
next
  assume "\<exists>R P L.
      glob_parse fs eng Map.empty (path_Join [base, ''root.html'']) = Some R \<and>
      glob_parse fs eng R (path_Join [base, ''partials'', ''*.html'']) = Some P \<and>
      glob_parse fs eng P (path_Join [base, ''layouts'', ''*.html'']) = Some L \<and>
      pages_ok fs eng L (path_Join [base, ''pages''])"
  then obtain R P L where
    st: "glob_parse fs eng Map.empty (path_Join [base, ''root.html'']) = Some R"
      "glob_parse fs eng R (path_Join [base, ''partials'', ''*.html'']) = Some P"
      "glob_parse fs eng P (path_Join [base, ''layouts'', ''*.html'']) = Some L"
    and pg: "pages_ok fs eng L (path_Join [base, ''pages''])"
    by blast
  let ?h3 = "h @ [\<lparr>tmpls = R, escaped = False\<rparr>, \<lparr>tmpls = P, escaped = False\<rparr>, \<lparr>tmpls = L, escaped = False\<rparr>]"
  have ok: "\<And>entries. (\<exists>st'. loadPages_entries fs eng (Suc (Suc (length h))) (path_Join [base, ''pages'']) entries
                (Map.empty, ?h3) = Inr st') =
        list_all (category_ok fs eng L (path_Join [base, ''pages''])) entries"
    using loadPages_entries_ok [of "Suc (Suc (length h))" ?h3 ?h3 fs eng "path_Join [base, ''pages'']" _ Map.empty]
    by (simp add: nth_append)
  from pg show "\<exists>r. New fs eng h base = Inr r"
    unfolding New_stages [OF st] pages_ok_def
    by (auto split: sum.splits prod.splits simp: ok [symmetric])
qed

theorem New_succeeds_iff_witness:
  "(\<exists>r. New example_fs example_engine [] ''examples'' = Inr r) \<and>
   (\<exists>R P L.
      glob_parse example_fs example_engine Map.empty (path_Join [''examples'', ''root.html'']) = Some R \<and>
      glob_parse example_fs example_engine R (path_Join [''examples'', ''partials'', ''*.html'']) = Some P \<and>
      glob_parse example_fs example_engine P (path_Join [''examples'', ''layouts'', ''*.html'']) = Some L \<and>
      pages_ok example_fs example_engine L (path_Join [''examples'', ''pages'']))"
proof -
  have ok: "\<exists>r. New example_fs example_engine [] ''examples'' = Inr r"
    using example_New by blast
  with New_succeeds_iff [of example_fs example_engine "[]" "''examples''"]
  show ?thesis by blast
qed

text \<open>
  C2 as stated fails without a layout file: the root template is there and parses, the
  pages directory is there and its contents read and parse, and \<open>New\<close> fails.
\<close>

theorem New_succeeds_iff_counterexample:
  "glob_parse no_layouts_fs example_engine Map.empty ''examples/root.html'' =
     Some [''root.html'' \<mapsto> ''<!DOCTYPE html>''] \<and>
   pages_ok no_layouts_fs example_engine
     [''root.html'' \<mapsto> ''<!DOCTYPE html>'', ''_header.html'' \<mapsto> ''Your APP!!''] ''examples/pages'' \<and>
   New no_layouts_fs example_engine [] ''examples'' =
     Inl (WrapError ''failed to load layouts'' (PatternMatchesNoFiles ''examples/layouts/*.html''))"
  by (simp add: example_defs spec_defs)

text \<open>
  C3. Without a partials directory the pattern of the partials matches no file: the
  partials step fails with the error of \<open>ParseGlob\<close> for a pattern without a match,
  and so does \<open>New\<close>, where the claim has the step succeed with a clone of the root
  set.
\<close>

theorem loadPartials_without_partials:
  "Glob no_partials_fs ''examples/partials/*.html'' = Inr [] \<and>
   loadRoot no_partials_fs example_engine [] example_tc = Inr (0, take 1 example_heap) \<and>
   loadPartials no_partials_fs example_engine (take 1 example_heap) example_tc 0 =
     Inl (PatternMatchesNoFiles ''examples/partials/*.html'') \<and>
   New no_partials_fs example_engine [] ''examples'' =
     Inl (WrapError ''failed to load partials'' (PatternMatchesNoFiles ''examples/partials/*.html''))"
  by (simp add: example_defs spec_defs)

text \<open>
  C4, as amended. When the root and the partials have loaded and the pattern of the
  layouts matches no file, the layouts step fails with the error of \<open>ParseGlob\<close> for
  a pattern without a match, and \<open>New\<close> fails with that error, wrapped: the absence of
  layout files is an error of construction.
\<close>

theorem loadLayouts_without_layouts:
  assumes "loadRoot fs eng h tc = Inr (root, h1)"
    and "loadPartials fs eng h1 tc root = Inr (partials, h2)"
    and "Glob fs (path_Join [basePath tc, ''layouts'', ''*.html'']) = Inr []"
  shows "loadLayouts fs eng h2 tc partials =
           Inl (PatternMatchesNoFiles (path_Join [basePath tc, ''layouts'', ''*.html''])) \<and>
         New fs eng h (basePath tc) =
           Inl (WrapError ''failed to load layouts''
                  (PatternMatchesNoFiles (path_Join [basePath tc, ''layouts'', ''*.html''])))"
proof -
  let ?tc = "\<lparr>basePath = basePath tc, pages = Map.empty\<rparr>"
  from loadPartials_Inr [OF assms(2)] obtain ns where
    p: "partials = length h1" "h2 = h1 @ [ns]" "\<not> escaped ns" by blast
  then have cl: "clone h2 partials = Inr (length h2, h2 @ [\<lparr>tmpls = tmpls ns, escaped = False\<rparr>])"
    by (simp add: clone_ok)
  have pg: "parseGlob fs eng (h2 @ [\<lparr>tmpls = tmpls ns, escaped = False\<rparr>]) (Some (length h2))
      (path_Join [basePath tc, ''layouts'', ''*.html'']) =
      Inl (PatternMatchesNoFiles (path_Join [basePath tc, ''layouts'', ''*.html'']))"
    using assms(3) by (simp add: parseGlob_def checkCanParse_def)
  have l: "loadLayouts fs eng h2 tc partials =
      Inl (PatternMatchesNoFiles (path_Join [basePath tc, ''layouts'', ''*.html'']))"
    by (simp add: loadLayouts_def cl pg)
  have r': "loadRoot fs eng h ?tc = Inr (root, h1)"
    using assms(1) by (simp add: loadRoot_def)
  have p': "loadPartials fs eng h1 ?tc root = Inr (partials, h2)"
    using assms(2) by (auto simp: loadPartials_def split: sum.splits)
  have l': "loadLayouts fs eng h2 ?tc partials =
      Inl (PatternMatchesNoFiles (path_Join [basePath tc, ''layouts'', ''*.html'']))"
    using l by (auto simp: loadLayouts_def split: sum.splits)
  have "New fs eng h (basePath tc) =
      Inl (WrapError ''failed to load layouts''
             (PatternMatchesNoFiles (path_Join [basePath tc, ''layouts'', ''*.html''])))"
    by (simp add: New_def loadPages_def r' p' l')
  with l show ?thesis ..
qed

theorem loadLayouts_without_layouts_witness:
  "loadRoot no_layouts_fs example_engine [] example_tc = Inr (0, take 1 example_heap) \<and>
   loadPartials no_layouts_fs example_engine (take 1 example_heap) example_tc 0 = Inr (1, take 2 example_heap) \<and>
   Glob no_layouts_fs (path_Join [basePath example_tc, ''layouts'', ''*.html'']) = Inr [] \<and>
   loadLayouts no_layouts_fs example_engine (take 2 example_heap) example_tc 1 =
     Inl (PatternMatchesNoFiles (path_Join [basePath example_tc, ''layouts'', ''*.html''])) \<and>
   New no_layouts_fs example_engine [] (basePath example_tc) =
     Inl (WrapError ''failed to load layouts''
            (PatternMatchesNoFiles (path_Join [basePath example_tc, ''layouts'', ''*.html''])))"
proof -
  have r: "loadRoot no_layouts_fs example_engine [] example_tc = Inr (0, take 1 example_heap)"
    by (simp add: example_defs spec_defs)
  have p: "loadPartials no_layouts_fs example_engine (take 1 example_heap) example_tc 0 =
      Inr (1, take 2 example_heap)"
    by (simp add: example_defs spec_defs)
  have g: "Glob no_layouts_fs (path_Join [basePath example_tc, ''layouts'', ''*.html'']) = Inr []"
    by (simp add: example_defs spec_defs)
  from loadLayouts_without_layouts [OF r p g] r p g show ?thesis by blast
qed

text \<open>
  C4 as stated fails on the example directory without its layouts: the root and the
  partials load, no file matches the pattern of the layouts, and the layouts step
  returns an error.
\<close>

theorem loadLayouts_succeeds_counterexample:
  "loadRoot no_layouts_fs example_engine [] example_tc =
     Inr (0, [\<lparr>tmpls = [''root.html'' \<mapsto> ''<!DOCTYPE html>''], escaped = False\<rparr>]) \<and>
   loadPartials no_layouts_fs example_engine
       [\<lparr>tmpls = [''root.html'' \<mapsto> ''<!DOCTYPE html>''], escaped = False\<rparr>] example_tc 0 =
     Inr (1, [\<lparr>tmpls = [''root.html'' \<mapsto> ''<!DOCTYPE html>''], escaped = False\<rparr>,
              \<lparr>tmpls = [''root.html'' \<mapsto> ''<!DOCTYPE html>'', ''_header.html'' \<mapsto> ''Your APP!!''],
               escaped = False\<rparr>]) \<and>
   Glob no_layouts_fs ''examples/layouts/*.html'' = Inr [] \<and>
   loadLayouts no_layouts_fs example_engine
       [\<lparr>tmpls = [''root.html'' \<mapsto> ''<!DOCTYPE html>''], escaped = False\<rparr>,
        \<lparr>tmpls = [''root.html'' \<mapsto> ''<!DOCTYPE html>'', ''_header.html'' \<mapsto> ''Your APP!!''],
         escaped = False\<rparr>] example_tc 1 =
     Inl (PatternMatchesNoFiles ''examples/layouts/*.html'')"
  by (simp add: example_defs spec_defs)

text \<open>
  C10. When the root, the partials and the layouts have loaded and an entry of the
  pages directory is a regular file, \<open>New\<close> fails with a wrapped error; and when the
  entries before it are categories in order, the error is that of listing the entry:
  "could not read the subpages directory <path of the entry>", wrapping the error of
  the operating system for listing what is not a directory.
\<close>

theorem New_regular_file_in_pages:
  assumes "loadRoot fs eng h tc = Inr (root, h1)"
    and "loadPartials fs eng h1 tc root = Inr (partials, h2)"
    and "loadLayouts fs eng h2 tc partials = Inr (layouts, h3)"
    and "os_ReadDir fs (path_Join [basePath tc, ''pages'']) = Inr entries"
    and "entry \<in> set entries"
    and "node_at fs (path_Join [path_Join [basePath tc, ''pages''], Name entry]) = Some (RegularFile c)"
  shows "(\<exists>ctx err. New fs eng h (basePath tc) = Inl (WrapError ctx err)) \<and>
         (list_all (category_ok fs eng (tmpls (h3 ! layouts)) (path_Join [basePath tc, ''pages'']))
              (takeWhile (\<lambda>x. x \<noteq> entry) entries) \<longrightarrow>
          New fs eng h (basePath tc) =
            Inl (WrapError
                   (''could not read the subpages directory '' @
                      path_Join [path_Join [basePath tc, ''pages''], Name entry])
                   (PathError ''readdirent'' (path_Join [path_Join [basePath tc, ''pages''], Name entry]) ENOTDIR)))"
proof
  let ?pp = "path_Join [basePath tc, ''pages'']"
  let ?dp = "path_Join [?pp, Name entry]"
  from assms(1-3) obtain R P L where
    st: "glob_parse fs eng Map.empty (path_Join [basePath tc, ''root.html'']) = Some R"
      "glob_parse fs eng R (path_Join [basePath tc, ''partials'', ''*.html'']) = Some P"
      "glob_parse fs eng P (path_Join [basePath tc, ''layouts'', ''*.html'']) = Some L"
    and lay: "layouts = Suc (Suc (length h))"
    and h3: "h3 = h @ [\<lparr>tmpls = R, escaped = False\<rparr>, \<lparr>tmpls = P, escaped = False\<rparr>, \<lparr>tmpls = L, escaped = False\<rparr>]"
    by (rule stages_glob)
  have bad: "os_ReadDir fs ?dp = Inl (PathError ''readdirent'' ?dp ENOTDIR)"
    using assms(6) by (simp add: os_ReadDir_def)
  have lt: "layouts < length h3" and ne: "\<not> escaped (h3 ! layouts)" and Lset: "tmpls (h3 ! layouts) = L"
    using lay h3 by (simp_all add: nth_append)
  have "\<not> category_ok fs eng L ?pp entry"
    using bad by (simp add: category_ok_def)
  with assms(5) have "\<not> list_all (category_ok fs eng (tmpls (h3 ! layouts)) ?pp) entries"
    by (auto simp: list_all_iff Lset)
  with loadPages_entries_ok [OF lt ne, of h3 fs eng ?pp entries Map.empty]
  have "\<not> (\<exists>st'. loadPages_entries fs eng layouts ?pp entries (Map.empty, h3) = Inr st')"
    by simp
  then obtain err where "loadPages_entries fs eng layouts ?pp entries (Map.empty, h3) = Inl err"
    by (cases "loadPages_entries fs eng layouts ?pp entries (Map.empty, h3)") auto
  with assms(4) lay h3 have "New fs eng h (basePath tc) = Inl err"
    unfolding New_stages [OF st] by simp
  with New_err [OF this] show "\<exists>ctx err. New fs eng h (basePath tc) = Inl (WrapError ctx err)"
    by auto
  show "list_all (category_ok fs eng (tmpls (h3 ! layouts)) ?pp) (takeWhile (\<lambda>x. x \<noteq> entry) entries) \<longrightarrow>
      New fs eng h (basePath tc) =
        Inl (WrapError (''could not read the subpages directory '' @ ?dp) (PathError ''readdirent'' ?dp ENOTDIR))"
  proof
    assume before: "list_all (category_ok fs eng (tmpls (h3 ! layouts)) ?pp) (takeWhile (\<lambda>x. x \<noteq> entry) entries)"
    from loadPages_entries_first_bad [OF lt ne _ _ assms(5) bad before, of h3 Map.empty]
    have "loadPages_entries fs eng layouts ?pp entries (Map.empty, h3) =
        Inl (WrapError (''could not read the subpages directory '' @ ?dp) (PathError ''readdirent'' ?dp ENOTDIR))"
      by simp
    with assms(4) lay h3 show "New fs eng h (basePath tc) =
        Inl (WrapError (''could not read the subpages directory '' @ ?dp) (PathError ''readdirent'' ?dp ENOTDIR))"
      unfolding New_stages [OF st] by simp
  qed
qed

theorem New_regular_file_in_pages_witness:
  "loadRoot stray_file_fs example_engine [] example_tc = Inr (0, take 1 example_heap) \<and>
   loadPartials stray_file_fs example_engine (take 1 example_heap) example_tc 0 = Inr (1, take 2 example_heap) \<and>
   loadLayouts stray_file_fs example_engine (take 2 example_heap) example_tc 1 = Inr (2, take 3 example_heap) \<and>
   os_ReadDir stray_file_fs (path_Join [basePath example_tc, ''pages'']) =
     Inr [\<lparr>Name = ''home'', IsDir = True\<rparr>, \<lparr>Name = ''notes.txt'', IsDir = False\<rparr>] \<and>
   node_at stray_file_fs (path_Join [path_Join [basePath example_tc, ''pages''], ''notes.txt'']) =
     Some (RegularFile (Inr ''notes'')) \<and>
   list_all (category_ok stray_file_fs example_engine (tmpls (take 3 example_heap ! 2))
               (path_Join [basePath example_tc, ''pages'']))
     (takeWhile (\<lambda>x. x \<noteq> \<lparr>Name = ''notes.txt'', IsDir = False\<rparr>)
        [\<lparr>Name = ''home'', IsDir = True\<rparr>, \<lparr>Name = ''notes.txt'', IsDir = False\<rparr>]) \<and>
   New stray_file_fs example_engine [] (basePath example_tc) =
     Inl (WrapError ''could not read the subpages directory examples/pages/notes.txt''
            (PathError ''readdirent'' ''examples/pages/notes.txt'' ENOTDIR))"
proof -
  let ?entry = "\<lparr>Name = ''notes.txt'', IsDir = False\<rparr>"
  let ?entries = "[\<lparr>Name = ''home'', IsDir = True\<rparr>, ?entry]"
  have r: "loadRoot stray_file_fs example_engine [] example_tc = Inr (0, take 1 example_heap)"
    by (simp add: example_defs spec_defs)
  have p: "loadPartials stray_file_fs example_engine (take 1 example_heap) example_tc 0 = Inr (1, take 2 example_heap)"
    by (simp add: example_defs spec_defs)
  have l: "loadLayouts stray_file_fs example_engine (take 2 example_heap) example_tc 1 = Inr (2, take 3 example_heap)"
    by (simp add: example_defs spec_defs)
  have d: "os_ReadDir stray_file_fs (path_Join [basePath example_tc, ''pages'']) = Inr ?entries"
    by (simp add: example_defs spec_defs)
  have m: "?entry \<in> set ?entries" by simp
  have n: "node_at stray_file_fs (path_Join [path_Join [basePath example_tc, ''pages''], Name ?entry]) =
      Some (RegularFile (Inr ''notes''))"
    by (simp add: example_defs spec_defs)
  have b: "list_all (category_ok stray_file_fs example_engine (tmpls (take 3 example_heap ! 2))
               (path_Join [basePath example_tc, ''pages'']))
     (takeWhile (\<lambda>x. x \<noteq> ?entry) ?entries)"
    by (simp add: example_defs spec_defs)
  have dp: "path_Join [path_Join [basePath example_tc, ''pages''], Name ?entry] = ''examples/pages/notes.txt''"
    by (simp add: example_defs)
  from New_regular_file_in_pages [OF r p l d m n] b
  have "New stray_file_fs example_engine [] (basePath example_tc) =
     Inl (WrapError (''could not read the subpages directory '' @
                       path_Join [path_Join [basePath example_tc, ''pages''], Name ?entry])
            (PathError ''readdirent'' (path_Join [path_Join [basePath example_tc, ''pages''], Name ?entry]) ENOTDIR))"
    by blast
  then have "New stray_file_fs example_engine [] (basePath example_tc) =
     Inl (WrapError ''could not read the subpages directory examples/pages/notes.txt''
            (PathError ''readdirent'' ''examples/pages/notes.txt'' ENOTDIR))"
    unfolding dp by simp
  with r p l d n b show ?thesis by simp
qed

text \<open>
  C8. When construction succeeds and the entries of the pages directory and of its
  categories have names of files (not empty, not \<open>.\<close> or \<open>..\<close>, without a slash), the
  keys of the page registry are exactly the keys \<open><category>/<filename>\<close> of the
  entries of the categories that are not directories, and different files have
  different keys. The directories among those entries give no key, and the loop over
  the entries of a category returns what it returns without them: the same registry
  and heap, or the same error.
\<close>

theorem registry_keys:
  assumes "New fs eng h0 base = Inr (tc, h)"
    and "list_all (\<lambda>df. valid_name (fst df) \<and> valid_name (snd df))
           (leaf_files fs (path_Join [base, ''pages'']))"
  shows "dom (pages tc) = page_key ` set (leaf_files fs (path_Join [base, ''pages''])) \<and>
         inj_on page_key (set (leaf_files fs (path_Join [base, ''pages'']))) \<and>
         loadPages_files fs eng layouts pagesPath dirName (filter (\<lambda>file. \<not> IsDir file) files) (pgs, h') =
           loadPages_files fs eng layouts pagesPath dirName files (pgs, h')"
proof (intro conjI)
  show "loadPages_files fs eng layouts pagesPath dirName (filter (\<lambda>file. \<not> IsDir file) files) (pgs, h') =
      loadPages_files fs eng layouts pagesPath dirName files (pgs, h')"
    by (rule loadPages_files_skip_dirs)
next
  let ?leaf = "leaf_files fs (path_Join [base, ''pages''])"
  from assms(2) have valid: "\<And>df. df \<in> set ?leaf \<Longrightarrow> valid_name (fst df) \<and> valid_name (snd df)"
    by (simp add: list_all_iff)
  from assms(1) obtain R P L entries where
    ls: "os_ReadDir fs (path_Join [base, ''pages'']) = Inr entries"
    and loop: "loadPages_entries fs eng (Suc (Suc (length h0))) (path_Join [base, ''pages'']) entries
       (Map.empty, h0 @ [\<lparr>tmpls = R, escaped = False\<rparr>, \<lparr>tmpls = P, escaped = False\<rparr>,
                         \<lparr>tmpls = L, escaped = False\<rparr>]) = Inr (pages tc, h)"
    by (rule New_Inr_loop)
  let ?h3 = "h0 @ [\<lparr>tmpls = R, escaped = False\<rparr>, \<lparr>tmpls = P, escaped = False\<rparr>, \<lparr>tmpls = L, escaped = False\<rparr>]"
  have "dom (pages tc) = (\<lambda>df. path_Join [fst df, snd df]) ` set ?leaf"
    using loadPages_entries_dom [of "Suc (Suc (length h0))" ?h3 ?h3, OF _ _ _ _ loop] ls
    by (simp add: nth_append leaf_files_def)
  also have "\<dots> = page_key ` set ?leaf"
    by (rule image_cong) (auto simp: page_key_def path_Join_names dest: valid)
  finally show "dom (pages tc) = page_key ` set ?leaf" .
  show "inj_on page_key (set ?leaf)"
  proof (rule inj_onI)
    fix a b assume a: "a \<in> set ?leaf" and b: "b \<in> set ?leaf" and eq: "page_key a = page_key b"
    from valid [OF a] valid [OF b] have "CHR ''/'' \<notin> set (fst a)" "CHR ''/'' \<notin> set (fst b)"
      by (auto simp: valid_name_def)
    from page_key_inj [OF this, of "snd a" "snd b"] eq show "a = b"
      by (simp add: page_key_def prod_eq_iff)
  qed
qed

theorem registry_keys_witness:
  "New example_fs example_engine [] ''examples'' = Inr (example_tc, example_heap) \<and>
   os_ReadDir example_fs ''examples/pages/home'' =
     Inr [\<lparr>Name = ''index.html'', IsDir = False\<rparr>, \<lparr>Name = ''drafts'', IsDir = True\<rparr>] \<and>
   leaf_files example_fs (path_Join [''examples'', ''pages'']) = [(''home'', ''index.html'')] \<and>
   list_all (\<lambda>df. valid_name (fst df) \<and> valid_name (snd df))
     (leaf_files example_fs (path_Join [''examples'', ''pages''])) \<and>
   dom (pages example_tc) = {''home/index.html''} \<and>
   dom (pages example_tc) = page_key ` set (leaf_files example_fs (path_Join [''examples'', ''pages''])) \<and>
   inj_on page_key (set (leaf_files example_fs (path_Join [''examples'', ''pages''])))  \<and>
   loadPages_files example_fs example_engine 2 ''examples/pages'' ''home''
       (filter (\<lambda>file. \<not> IsDir file)
          [\<lparr>Name = ''index.html'', IsDir = False\<rparr>, \<lparr>Name = ''drafts'', IsDir = True\<rparr>])
       (Map.empty, take 3 example_heap) =
     loadPages_files example_fs example_engine 2 ''examples/pages'' ''home''
       [\<lparr>Name = ''index.html'', IsDir = False\<rparr>, \<lparr>Name = ''drafts'', IsDir = True\<rparr>]
       (Map.empty, take 3 example_heap)"
proof -
  have v: "list_all (\<lambda>df. valid_name (fst df) \<and> valid_name (snd df))
     (leaf_files example_fs (path_Join [''examples'', ''pages'']))"
    by (simp add: example_leaf_files valid_name_def)
  have d: "os_ReadDir example_fs ''examples/pages/home'' =
     Inr [\<lparr>Name = ''index.html'', IsDir = False\<rparr>, \<lparr>Name = ''drafts'', IsDir = True\<rparr>]"
    by (simp add: example_defs)
  have k: "dom (pages example_tc) = {''home/index.html''}"
    by (simp add: example_tc_def)
  from registry_keys [OF example_New v, where layouts = 2 and pagesPath = "''examples/pages''"
      and dirName = "''home''" and pgs = Map.empty and h' = "take 3 example_heap"
      and files = "[\<lparr>Name = ''index.html'', IsDir = False\<rparr>, \<lparr>Name = ''drafts'', IsDir = True\<rparr>]"]
    example_New example_leaf_files v d k
  show ?thesis by (intro conjI) (elim conjE, assumption)+
qed

text \<open>
  C7. When construction succeeds, each of the root, partials and layout sets is a new
  name space, made after the one it derives from; in the final heap every name space
  that existed when a step ended is as it was then, so that no set changed after it had
  been cloned; every page's set is a name space made after the layout set was
  complete, holding what parsing that page's own file on top of the layout set gives;
  and no two keys of the registry share a name space.
\<close>

theorem clone_before_parse:
  assumes "New fs eng h0 base = Inr (tc, h)"
  shows "\<exists>root partials layouts h1 h2 h3.
     loadRoot fs eng h0 tc = Inr (root, h1) \<and>
     loadPartials fs eng h1 tc root = Inr (partials, h2) \<and>
     loadLayouts fs eng h2 tc partials = Inr (layouts, h3) \<and>
     root = length h0 \<and> partials = length h1 \<and> layouts = length h2 \<and>
     length h1 = Suc (length h0) \<and> length h2 = Suc (length h1) \<and> length h3 = Suc (length h2) \<and>
     take (length h0) h = h0 \<and> take (length h1) h = h1 \<and>
     take (length h2) h = h2 \<and> take (length h3) h = h3 \<and>
     (\<forall>k t. pages tc k = Some t \<longrightarrow>
        length h3 \<le> t \<and> t < length h \<and>
        page_compiled fs eng (tmpls (h3 ! layouts)) (path_Join [base, ''pages'']) k (tmpls (h ! t))) \<and>
     (\<forall>k k' t. pages tc k = Some t \<longrightarrow> pages tc k' = Some t \<longrightarrow> k = k')"
proof -
  from assms obtain R P L where
    st: "glob_parse fs eng Map.empty (path_Join [base, ''root.html'']) = Some R"
      "glob_parse fs eng R (path_Join [base, ''partials'', ''*.html'']) = Some P"
      "glob_parse fs eng P (path_Join [base, ''layouts'', ''*.html'']) = Some L"
    and inv: "pages_inv fs eng
       (h0 @ [\<lparr>tmpls = R, escaped = False\<rparr>, \<lparr>tmpls = P, escaped = False\<rparr>, \<lparr>tmpls = L, escaped = False\<rparr>])
       (Suc (Suc (length h0))) (path_Join [base, ''pages'']) (pages tc, h)"
    and bp: "basePath tc = base"
    by (rule New_pages_inv)
  let ?h1 = "h0 @ [\<lparr>tmpls = R, escaped = False\<rparr>]"
  let ?h2 = "h0 @ [\<lparr>tmpls = R, escaped = False\<rparr>, \<lparr>tmpls = P, escaped = False\<rparr>]"
  let ?h3 = "h0 @ [\<lparr>tmpls = R, escaped = False\<rparr>, \<lparr>tmpls = P, escaped = False\<rparr>, \<lparr>tmpls = L, escaped = False\<rparr>]"
  have r: "loadRoot fs eng h0 tc = Inr (length h0, ?h1)"
    using st(1) bp by (simp add: loadRoot_Some)
  have p: "loadPartials fs eng ?h1 tc (length h0) = Inr (length ?h1, ?h2)"
    using st(2) bp by (simp add: loadPartials_Some)
  have l: "loadLayouts fs eng ?h2 tc (length ?h1) = Inr (length ?h2, ?h3)"
    using st(3) bp loadLayouts_Some [of fs eng P tc L ?h1] by simp
  from inv have tk: "take (length ?h3) h = ?h3"
    unfolding pages_inv_def prod.case by (elim conjE)
  from inv have pg: "\<forall>k t. pages tc k = Some t \<longrightarrow>
        length ?h3 \<le> t \<and> t < length h \<and> \<not> escaped (h ! t) \<and>
        page_compiled fs eng (tmpls (?h3 ! Suc (Suc (length h0)))) (path_Join [base, ''pages'']) k (tmpls (h ! t))"
    unfolding pages_inv_def prod.case by (elim conjE)
  from inv have inj: "\<forall>k k' t. pages tc k = Some t \<longrightarrow> pages tc k' = Some t \<longrightarrow> k = k'"
    unfolding pages_inv_def prod.case by (elim conjE)
  from tk have t0: "take (length h0) h = h0"
    by (rule take_take_append)
  from tk have "take (length ?h3) h = ?h1 @ [\<lparr>tmpls = P, escaped = False\<rparr>, \<lparr>tmpls = L, escaped = False\<rparr>]"
    by simp
  then have t1: "take (length ?h1) h = ?h1"
    by (rule take_take_append)
  from tk have "take (length ?h3) h = ?h2 @ [\<lparr>tmpls = L, escaped = False\<rparr>]"
    by simp
  then have t2: "take (length ?h2) h = ?h2"
    by (rule take_take_append)
  from pg have pg': "\<forall>k t. pages tc k = Some t \<longrightarrow>
        length ?h3 \<le> t \<and> t < length h \<and>
        page_compiled fs eng (tmpls (?h3 ! length ?h2)) (path_Join [base, ''pages'']) k (tmpls (h ! t))"
    by simp
  show ?thesis
  proof (intro exI conjI)
    show "loadRoot fs eng h0 tc = Inr (length h0, ?h1)" by (rule r)
    show "loadPartials fs eng ?h1 tc (length h0) = Inr (length ?h1, ?h2)" by (rule p)
    show "loadLayouts fs eng ?h2 tc (length ?h1) = Inr (length ?h2, ?h3)" by (rule l)
    show "take (length h0) h = h0" by (rule t0)
    show "take (length ?h1) h = ?h1" by (rule t1)
    show "take (length ?h2) h = ?h2" by (rule t2)
    show "take (length ?h3) h = ?h3" by (rule tk)
    show "\<forall>k t. pages tc k = Some t \<longrightarrow>
        length ?h3 \<le> t \<and> t < length h \<and>
        page_compiled fs eng (tmpls (?h3 ! length ?h2)) (path_Join [base, ''pages'']) k (tmpls (h ! t))"
      by (rule pg')
    show "\<forall>k k' t. pages tc k = Some t \<longrightarrow> pages tc k' = Some t \<longrightarrow> k = k'" by (rule inj)
  qed simp_all
qed

theorem clone_before_parse_witness:
  "New example_fs example_engine [] ''examples'' = Inr (example_tc, example_heap) \<and>
   (\<exists>root partials layouts h1 h2 h3.
     loadRoot example_fs example_engine [] example_tc = Inr (root, h1) \<and>
     loadPartials example_fs example_engine h1 example_tc root = Inr (partials, h2) \<and>
     loadLayouts example_fs example_engine h2 example_tc partials = Inr (layouts, h3) \<and>
     root = length ([] :: string heap) \<and> partials = length h1 \<and> layouts = length h2 \<and>
     length h1 = Suc (length ([] :: string heap)) \<and> length h2 = Suc (length h1) \<and>
     length h3 = Suc (length h2) \<and>
     take (length ([] :: string heap)) example_heap = [] \<and> take (length h1) example_heap = h1 \<and>
     take (length h2) example_heap = h2 \<and> take (length h3) example_heap = h3 \<and>
     (\<forall>k t. pages example_tc k = Some t \<longrightarrow>
        length h3 \<le> t \<and> t < length example_heap \<and>
        page_compiled example_fs example_engine (tmpls (h3 ! layouts)) (path_Join [''examples'', ''pages'']) k
          (tmpls (example_heap ! t))) \<and>
     (\<forall>k k' t. pages example_tc k = Some t \<longrightarrow> pages example_tc k' = Some t \<longrightarrow> k = k'))"
  using clone_before_parse [OF example_New] example_New by blast

section \<open>Rendering\<close>

text \<open>
  C1. For every engine and every page key that is not in the page registry,
  \<open>RenderPage\<close> returns the error "page template not found: <page key>", leaves the
  destination as it was, and changes neither the engine nor the heap, whatever the
  layout name and the data are.
\<close>

theorem RenderPage_unknown_page:
  "pages tc page = None \<Longrightarrow>
   RenderPage eng tc h w layout page data =
     (Some (ErrorString (''page template not found: '' @ page)), w, tc, h)"
  by (simp add: RenderPage_def)

theorem RenderPage_unknown_page_witness:
  "pages example_tc ''nonexistent/page.html'' = None \<and>
   RenderPage example_engine example_tc example_heap ''written before'' ''app.html''
       ''nonexistent/page.html'' ''data'' =
     (Some (ErrorString ''page template not found: nonexistent/page.html''),
      ''written before'', example_tc, example_heap)"
proof -
  have absent: "pages example_tc ''nonexistent/page.html'' = None"
    by (simp add: example_tc_def)
  from RenderPage_unknown_page [OF absent, of example_engine example_heap
      "''written before''" "''app.html''" "''data''"] absent
  show ?thesis by simp
qed

text \<open>
  C5. In every state of an engine built by \<open>New\<close>, for a page key of the registry and a
  layout name that the page's template set does not define, \<open>RenderPage\<close> returns the
  error of the template library for an undefined template, whatever the data are; it
  writes nothing, and marks the page's name space as executed.
\<close>

theorem RenderPage_unknown_layout:
  assumes "engine_state fs eng tc h" and "pages tc page = Some t"
    and "tmpls (h ! t) layout = None"
  shows "RenderPage eng tc h w layout page data =
     (Some (UndefinedTemplate layout), w, tc, h[t := (h ! t)\<lparr>escaped := True\<rparr>])"
  using engine_state_valid [OF assms(1,2)] assms(2,3)
  by (simp add: RenderPage_def ExecuteTemplate_def Let_def)

theorem RenderPage_unknown_layout_witness:
  "engine_state example_fs example_engine example_tc example_heap \<and>
   pages example_tc ''home/index.html'' = Some 3 \<and>
   tmpls (example_heap ! 3) ''nonexistent_layout'' = None \<and>
   RenderPage example_engine example_tc example_heap [] ''nonexistent_layout'' ''home/index.html'' ''data'' =
     (Some (UndefinedTemplate ''nonexistent_layout''), [], example_tc,
      example_heap[3 := (example_heap ! 3)\<lparr>escaped := True\<rparr>])"
proof -
  have p: "pages example_tc ''home/index.html'' = Some 3"
    by (simp add: example_tc_def)
  have l: "tmpls (example_heap ! 3) ''nonexistent_layout'' = None"
    by (simp add: example_heap_def)
  from RenderPage_unknown_layout [OF example_state p l, of "[]" "''data''"] example_state p l
  show ?thesis by blast
qed

text \<open>
  C6. Two calls of \<open>RenderPage\<close> with the same layout name, page key and data, the
  second on the engine as the first left it, each writing to a destination with the same
  contents before, leave the same contents in both and return the same error or none.
\<close>

theorem RenderPage_deterministic:
  "RenderPage eng tc h w layout page data = (e1, out1, tc1, h1) \<Longrightarrow>
   RenderPage eng tc1 h1 w layout page data = (e2, out2, tc2, h2) \<Longrightarrow>
   out2 = out1 \<and> e2 = e1"
  by (auto simp: RenderPage_def split: option.splits prod.splits dest: ExecuteTemplate_again)

theorem RenderPage_deterministic_witness:
  "RenderPage example_engine example_tc example_heap [] ''app.html'' ''home/index.html'' ''!'' =
     (None, ''app_layout!'', example_tc, example_heap_rendered) \<and>
   RenderPage example_engine example_tc example_heap_rendered [] ''app.html'' ''home/index.html'' ''!'' =
     (None, ''app_layout!'', example_tc, example_heap_rendered) \<and>
   example_heap_rendered \<noteq> example_heap \<and>
   fst (snd (RenderPage example_engine example_tc example_heap_rendered [] ''app.html'' ''home/index.html'' ''!'')) =
   fst (snd (RenderPage example_engine example_tc example_heap [] ''app.html'' ''home/index.html'' ''!''))"
proof -
  have ne: "example_heap_rendered \<noteq> example_heap"
    by (simp add: example_heap_rendered_def example_heap_def eval_nat_numeral)
  from RenderPage_deterministic [OF example_render example_render_again]
    example_render example_render_again ne
  show ?thesis by simp
qed

text \<open>
  C9, as amended. Every call of \<open>RenderPage\<close>, whether it returns an error or not,
  returns the engine as it was, with its base path and its page registry, and leaves
  the heap as it was except for the name space of the rendered page, which the template
  library marks as executed; every other page's template set is untouched. What any
  later call of \<open>RenderPage\<close> returns and writes is what it would have returned and
  written before the call.
\<close>

theorem RenderPage_frame:
  assumes "RenderPage eng tc h w layout page data = (err, w', tc', h')"
  shows "tc' = tc \<and>
         h' = (case pages tc page of None \<Rightarrow> h | Some t \<Rightarrow> h[t := (h ! t)\<lparr>escaped := True\<rparr>]) \<and>
         fst (RenderPage eng tc' h' w2 layout2 page2 data2) = fst (RenderPage eng tc h w2 layout2 page2 data2) \<and>
         fst (snd (RenderPage eng tc' h' w2 layout2 page2 data2)) =
           fst (snd (RenderPage eng tc h w2 layout2 page2 data2))"
proof -
  from assms have tc: "tc' = tc"
    by (auto simp: RenderPage_def split: option.splits prod.splits)
  from assms have h: "h' = (case pages tc page of None \<Rightarrow> h | Some t \<Rightarrow> h[t := (h ! t)\<lparr>escaped := True\<rparr>])"
    by (auto simp: RenderPage_def split: option.splits prod.splits dest: ExecuteTemplate_heap)
  have later: "fst (RenderPage eng tc h' w2 layout2 page2 data2) = fst (RenderPage eng tc h w2 layout2 page2 data2) \<and>
      fst (snd (RenderPage eng tc h' w2 layout2 page2 data2)) =
        fst (snd (RenderPage eng tc h w2 layout2 page2 data2))"
    unfolding h
    by (auto simp: RenderPage_def ExecuteTemplate_mark split: option.splits prod.splits)
  from tc h later show ?thesis by simp
qed

theorem RenderPage_frame_witness:
  "RenderPage example_engine example_tc example_heap [] ''app.html'' ''home/index.html'' ''!'' =
     (None, ''app_layout!'', example_tc, example_heap_rendered) \<and>
   example_heap_rendered =
     (case pages example_tc ''home/index.html'' of
        None \<Rightarrow> example_heap
      | Some t \<Rightarrow> example_heap[t := (example_heap ! t)\<lparr>escaped := True\<rparr>]) \<and>
   fst (RenderPage example_engine example_tc example_heap_rendered ''<p>'' ''_header.html'' ''home/index.html'' ''?'') =
     fst (RenderPage example_engine example_tc example_heap ''<p>'' ''_header.html'' ''home/index.html'' ''?'') \<and>
   fst (snd (RenderPage example_engine example_tc example_heap_rendered ''<p>'' ''_header.html'' ''home/index.html'' ''?'')) =
     fst (snd (RenderPage example_engine example_tc example_heap ''<p>'' ''_header.html'' ''home/index.html'' ''?'')) \<and>
   fst (snd (RenderPage example_engine example_tc example_heap ''<p>'' ''_header.html'' ''home/index.html'' ''?'')) =
     ''<p>Your APP!!?''"
proof -
  have out: "fst (snd (RenderPage example_engine example_tc example_heap ''<p>'' ''_header.html'' ''home/index.html'' ''?'')) =
     ''<p>Your APP!!?''"
    by (simp add: example_defs spec_defs)
  from RenderPage_frame [OF example_render, of "''<p>''" "''_header.html''" "''home/index.html''" "''?''"]
    example_render out
  show ?thesis by simp
qed

text \<open>
  C9 as stated fails on the example: after the page \<open>home/index.html\<close> has been
  rendered, its template set is not the one it was. It is marked as executed, and
  cloning it, which succeeded before, is refused.
\<close>

theorem RenderPage_frame_counterexample:
  "pages example_tc ''home/index.html'' = Some 3 \<and>
   RenderPage example_engine example_tc example_heap [] ''app.html'' ''home/index.html'' ''!'' =
     (None, ''app_layout!'', example_tc, example_heap_rendered) \<and>
   example_heap_rendered ! 3 \<noteq> example_heap ! 3 \<and>
   clone example_heap 3 =
     Inr (4, example_heap @ [\<lparr>tmpls = tmpls (example_heap ! 3), escaped = False\<rparr>]) \<and>
   clone example_heap_rendered 3 = Inl (WrapError ''failed to clone template'' CannotCloneAfterExecute)"
proof -
  have p: "pages example_tc ''home/index.html'' = Some 3"
    by (simp add: example_tc_def)
  have ne: "example_heap_rendered ! 3 \<noteq> example_heap ! 3"
    by (simp add: example_heap_rendered_def example_heap_def eval_nat_numeral)
  have c1: "clone example_heap 3 =
     Inr (4, example_heap @ [\<lparr>tmpls = tmpls (example_heap ! 3), escaped = False\<rparr>])"
    by (simp add: clone_def Template_Clone_def example_heap_def eval_nat_numeral)
  have c2: "clone example_heap_rendered 3 = Inl (WrapError ''failed to clone template'' CannotCloneAfterExecute)"
    by (simp add: clone_def Template_Clone_def example_heap_rendered_def example_heap_def eval_nat_numeral)
  from p example_render ne c1 c2 show ?thesis by simp
qed

end
